theory Spec2Isabelle
  imports Main "HOL-Library.Char_ord" "HOL-Library.List_Lexorder" "HOL-Library.Product_Lexorder"
    "HOL-Library.Multiset"
begin

section \<open>The Job Scheduling executor of DIRAC, as a shallow embedding\<close>

text \<open>
  The development follows \<^verbatim>\<open>WorkloadManagementSystem/Executor/JobScheduling.py\<close>.
  Every method of the class \<^verbatim>\<open>JobScheduling\<close> is one function of the same name.
  The collaborators (job state, job database, configuration, storage elements, stager)
  are read from an environment record that holds their replies; every call that writes
  through a collaborator is recorded as an event, in call order.
\<close>

subsection \<open>Python values used by the code\<close>

type_synonym site = string
type_synonym lfn = string
type_synonym se = string

text \<open>
  A DIRAC result envelope \<^verbatim>\<open>S_OK(value)\<close> / \<^verbatim>\<open>S_ERROR(message)\<close> is the sum type
  \<open>string + 'a\<close>: \<open>Inl\<close> carries the message, \<open>Inr\<close> the value. Where the value is not
  read by anybody the envelope is the datatype below.
\<close>

datatype envelope = S_OK | S_ERROR string

datatype py_exc = IndexError | KeyError | TypeError

text \<open>What a call of a method gives: it returns an envelope or an exception escapes.\<close>

datatype outcome = Return envelope | Raise py_exc

fun isOK :: "string + 'a \<Rightarrow> bool" where
  "isOK (Inl m) = False"
| "isOK (Inr v) = True"

text \<open>\<^verbatim>\<open>sep.join(xs)\<close>\<close>

fun join :: "string \<Rightarrow> string list \<Rightarrow> string" where
  "join sep [] = []"
| "join sep [x] = x"
| "join sep (x # y # ys) = x @ sep @ join sep (y # ys)"

text \<open>\<^verbatim>\<open>s.split(".")\<close>: the pieces between the dots; never an empty list.\<close>

fun split_dot :: "string \<Rightarrow> string list" where
  "split_dot [] = [[]]"
| "split_dot (c # cs) =
     (if c = CHR ''.'' then [] # split_dot cs
      else (case split_dot cs of [] \<Rightarrow> [[c]] | p # ps \<Rightarrow> (c # p) # ps))"

text \<open>\<^verbatim>\<open>str(n)\<close> for an integer: decimal digits, a minus sign when negative.\<close>

fun str_nat :: "nat \<Rightarrow> string" where
  "str_nat n = (if n < 10 then [''0123456789'' ! n]
                else str_nat (n div 10) @ [''0123456789'' ! (n mod 10)])"

declare str_nat.simps [simp del]

definition str_int :: "int \<Rightarrow> string" where
  "str_int i = (if i < 0 then CHR ''-'' # str_nat (nat (- i)) else str_nat (nat i))"

text \<open>
  \<^verbatim>\<open>s.strip()\<close> removes the ASCII white space at both ends, \<^verbatim>\<open>s.lower()\<close> maps the
  letters A to Z to lower case.
\<close>

definition is_space :: "char \<Rightarrow> bool" where
  "is_space c = (c \<in> set [CHR '' '', CHR 0x09, CHR 0x0A, CHR 0x0B, CHR 0x0C, CHR 0x0D])"

definition strip :: "string \<Rightarrow> string" where
  "strip s = rev (dropWhile is_space (rev (dropWhile is_space s)))"

definition lower_char :: "char \<Rightarrow> char" where
  "lower_char c =
     (if of_char c \<ge> (65::nat) \<and> of_char c \<le> (90::nat) then char_of (of_char c + (32::nat)) else c)"

definition lower :: "string \<Rightarrow> string" where
  "lower s = map lower_char s"

text \<open>
  \<^verbatim>\<open>xs[i]\<close>: a negative index counts from the end, an index out of range raises
  \<^verbatim>\<open>IndexError\<close>.
\<close>

definition py_index :: "'a list \<Rightarrow> int \<Rightarrow> py_exc + 'a" where
  "py_index xs i =
     (if 0 \<le> i \<and> i < int (length xs) then Inr (xs ! nat i)
      else if i < 0 \<and> - int (length xs) \<le> i then Inr (xs ! nat (int (length xs) + i))
      else Inl IndexError)"

text \<open>
  \<^verbatim>\<open>list(set(xs))\<close>: each element once. Python lists the elements of a set in hash
  order, which the program does not control; the model lists them in the order
  \<open>remdups\<close> leaves, and no theorem below depends on that order.
\<close>

definition list_of_set :: "string list \<Rightarrow> string list" where
  "list_of_set xs = remdups xs"

subsection \<open>Site filter\<close>

text \<open>
  The argument \<^verbatim>\<open>banned\<close> of \<^verbatim>\<open>_applySiteFilter\<close> is any Python value. The code
  reads its truth value, whether it is a \<^verbatim>\<open>list\<close>, \<^verbatim>\<open>set\<close> or \<^verbatim>\<open>dict\<close>, and
  then its elements (the keys of a dict).
\<close>

datatype banned_arg =
    BNone
  | BBool bool
  | BList "site list"
  | BSet "site list"
  | BDict "(site \<times> string) list"
  | BTuple "site list"
  | BStr string

fun truthy :: "banned_arg \<Rightarrow> bool" where
  "truthy BNone = False"
| "truthy (BBool b) = b"
| "truthy (BList xs) = (xs \<noteq> [])"
| "truthy (BSet xs) = (xs \<noteq> [])"
| "truthy (BDict kvs) = (kvs \<noteq> [])"
| "truthy (BTuple xs) = (xs \<noteq> [])"
| "truthy (BStr s) = (s \<noteq> [])"

text \<open>\<^verbatim>\<open>isinstance( banned, ( list, set, dict ) )\<close>\<close>

fun is_list_set_dict :: "banned_arg \<Rightarrow> bool" where
  "is_list_set_dict (BList xs) = True"
| "is_list_set_dict (BSet xs) = True"
| "is_list_set_dict (BDict kvs) = True"
| "is_list_set_dict b = False"

text \<open>The elements \<^verbatim>\<open>set( banned )\<close> collects.\<close>

fun elements :: "banned_arg \<Rightarrow> site list" where
  "elements (BList xs) = xs"
| "elements (BSet xs) = xs"
| "elements (BDict kvs) = map fst kvs"
| "elements (BTuple xs) = xs"
| "elements b = []"

definition applySiteFilter :: "site list \<Rightarrow> banned_arg \<Rightarrow> site list" where
  "applySiteFilter sites banned =
     (if sites = [] then sites
      else if truthy banned \<and> is_list_set_dict banned
        then list_of_set (filter (\<lambda>s. s \<notin> set (elements banned)) sites)
        else list_of_set sites)"

subsection \<open>Data model\<close>

text \<open>The replica counts of one site, \<^verbatim>\<open>{ 'disk' : n, 'tape' : m }\<close>; Python integers.\<close>

record replica_record =
  disk :: int
  tape :: int

text \<open>
  The record of the InputData optimizer. The key \<^verbatim>\<open>'SiteCandidates'\<close> may be missing;
  \<open>Successful\<close> is \<^verbatim>\<open>opData['Value']['Value']['Successful']\<close>, \<open>None\<close> when one of
  the three keys is missing. A Python dict is an association list with distinct keys,
  iterated in list order.
\<close>

record opData =
  SiteCandidates :: "(site \<times> replica_record) list option"
  Successful :: "(lfn \<times> se list) list option"

type_synonym stage_map = "(se \<times> lfn list) list"

record se_status =
  Read :: bool
  Write :: bool
  DiskSE :: bool
  TapeSE :: bool

text \<open>
  The job manifest: its options (every value read here is a list of strings, the
  virtual organisation a list of one string) and the names of its sections.
\<close>

record manifest =
  options :: "(string \<times> string list) list"
  sections :: "string list"

text \<open>\<^verbatim>\<open>manifest.getOption( name, [] )\<close>\<close>

definition getOption :: "manifest \<Rightarrow> string \<Rightarrow> string list" where
  "getOption m name = (case map_of (options m) name of None \<Rightarrow> [] | Some v \<Rightarrow> v)"

text \<open>\<^verbatim>\<open>name in manifest\<close>\<close>

definition contains :: "manifest \<Rightarrow> string \<Rightarrow> bool" where
  "contains m name = (name \<in> set (map fst (options m)) \<or> name \<in> set (sections m))"

text \<open>
  What \<^verbatim>\<open>jobState.getAttributes\<close> gives for the two attributes the code reads:
  \<open>RescheduleCounter\<close> is the value of \<^verbatim>\<open>int( attDict[ 'RescheduleCounter' ] )\<close>, \<open>None\<close>
  when that raises \<^verbatim>\<open>ValueError\<close> or \<^verbatim>\<open>KeyError\<close>; \<open>RescheduleTime\<close> is the value of
  \<^verbatim>\<open>toEpoch( fromString( attDict[ 'RescheduleTime' ] ) )\<close>, in seconds.
\<close>

record attDict =
  RescheduleCounter :: "int option"
  RescheduleTime :: int

text \<open>
  The environment of one call of \<^verbatim>\<open>optimizeJob\<close>: the configuration options of the
  executor (\<open>None\<close> when an option is not set), and the reply of every collaborator.
\<close>

record env =
  cfg_RescheduleDelays :: "int list option"
  cfg_ExcludedOnHoldJobTypes :: "string list option"
  cfg_HoldTime :: "int option"
  cfg_StagingStatus :: "string option"
  cfg_StagingMinorStatus :: "string option"
  cfg_InputDataAgent :: "string option"
  cfg_RestrictDataStage :: "bool option"
  jid :: int
  now :: int
  random :: "nat list"
  getAttributes :: "string + attDict"
  getAttribute :: "string \<Rightarrow> string + string"
  getManifest :: "string + manifest"
  getInputData :: "string + lfn list"
  getSiteMask :: "string + site list"
  dataProcessing :: "string list"
  getFilesToStage :: "lfn list \<Rightarrow> string \<Rightarrow> string \<Rightarrow> string + stage_map"
  stageAllowed :: "string \<Rightarrow> bool"
  retrieveOptimizerParam :: "string \<Rightarrow> string + opData"
  getSEsForSite :: "site \<Rightarrow> string + se list"
  getStatus :: "se \<Rightarrow> string list \<Rightarrow> string + se_status"
  getSiteTier :: "site \<Rightarrow> string + int"
  sectionOK :: "string \<Rightarrow> bool"
  setAppStatus :: "string \<Rightarrow> envelope"
  setStatus :: "nat \<Rightarrow> string \<Rightarrow> string \<Rightarrow> envelope"
  setRequest :: "stage_map \<Rightarrow> int \<Rightarrow> string + int"
  setAttribute :: "string \<Rightarrow> string \<Rightarrow> envelope"
  storeOptimizerParam :: "string \<Rightarrow> opData \<Rightarrow> envelope"
  setNextOptimizer :: envelope

text \<open>
  \<open>now\<close> is \<^verbatim>\<open>toEpoch()\<close>; \<open>random\<close> are the draws \<^verbatim>\<open>random.shuffle\<close> makes;
  \<open>dataProcessing\<close> is \<^verbatim>\<open>Operations().getValue( 'Transformations/DataProcessing', [] )\<close>;
  \<open>stageAllowed group\<close> is
  \<^verbatim>\<open>Properties.STAGE_ALLOWED in Registry.getPropertiesForGroup( group )\<close>;
  \<open>getStatus se vo\<close> is \<^verbatim>\<open>StorageElement( se, vo = vo ).getStatus()\<close>;
  \<open>sectionOK name\<close> tells whether \<^verbatim>\<open>getSection\<close> or \<^verbatim>\<open>createSection\<close> of the manifest
  succeeds. The fields from \<open>setAppStatus\<close> on are the replies to the calls that write;
  the first argument of \<open>setStatus\<close> counts the calls of \<^verbatim>\<open>jobState.setStatus\<close> made
  before. A collaborator that is only read gives the same reply whenever it is asked
  during the call.
\<close>

text \<open>\<^verbatim>\<open>self.ex_getOption( name, default )\<close>, on the option's value.\<close>

definition ex_getOption :: "'a option \<Rightarrow> 'a \<Rightarrow> 'a" where
  "ex_getOption v d = (case v of None \<Rightarrow> d | Some x \<Rightarrow> x)"

text \<open>The calls that write through a collaborator, with their arguments.\<close>

datatype event =
    FreezeTask int
  | SetAppStatus string
  | SetStatus string string
  | SetRequest stage_map int
  | SetParameter string string
  | SetAttribute string string
  | CreateSection string
  | SetOption string string
  | StoreOptimizerParam string opData
  | SetNextOptimizer

subsection \<open>Holding a job\<close>

definition holdJob :: "env \<Rightarrow> string \<Rightarrow> int \<Rightarrow> outcome \<times> event list" where
  "holdJob e holdMsg delay =
     (Return (setAppStatus e holdMsg),
      [FreezeTask (if delay \<noteq> 0 then delay else ex_getOption (cfg_HoldTime e) 300),
       SetAppStatus holdMsg])"

subsection \<open>Site requirements of the job\<close>

definition getSitesRequired :: "env \<Rightarrow> string + (site list \<times> site list)" where
  "getSitesRequired e =
     (case getManifest e of
        Inl msg \<Rightarrow> Inl (''Could not retrieve manifest: '' @ msg)
      | Inr manifest \<Rightarrow>
          (let bannedSites0 = getOption manifest ''BannedSites'';
               bannedSites = (if bannedSites0 = [] then getOption manifest ''BannedSite''
                              else bannedSites0);
               sites = filter (\<lambda>site. lower (strip site) \<notin> set [''any'', []])
                         (getOption manifest ''Site'')
           in if sites \<noteq> []
              then (let sites' = applySiteFilter sites (BList bannedSites)
                    in if sites' = [] then Inl ''Impossible site requirement''
                       else Inr (sites', bannedSites))
              else Inr (sites, bannedSites)))"

subsection \<open>The site attribute\<close>

text \<open>
  The loop of \<^verbatim>\<open>__setJobSite\<close> over the site list, with its two variables
  \<^verbatim>\<open>tierLevel\<close> (starting at \<open>-1\<close>) and \<^verbatim>\<open>tierSite\<close>.
\<close>

fun tierLoop :: "env \<Rightarrow> site list \<Rightarrow> int \<Rightarrow> site list \<Rightarrow> site list" where
  "tierLoop e [] tierLevel tierSite = tierSite"
| "tierLoop e (siteName # rest) tierLevel tierSite =
     (case getSiteTier e siteName of
        Inl msg \<Rightarrow> tierLoop e rest tierLevel tierSite
      | Inr t \<Rightarrow>
          (let siteTier = (if t = 0 then 1 else t);
               reset = (tierLevel = - 1 \<or> tierLevel > siteTier);
               tierLevel' = (if reset then siteTier else tierLevel);
               tierSite' = (if reset then [] else tierSite);
               tierSite'' = (if tierLevel' = siteTier then tierSite' @ [siteName] else tierSite')
           in tierLoop e rest tierLevel' tierSite''))"

text \<open>The value \<^verbatim>\<open>__setJobSite\<close> gives the attribute \<^verbatim>\<open>Site\<close>.\<close>

definition jobSiteName :: "env \<Rightarrow> site list \<Rightarrow> string" where
  "jobSiteName e siteList =
     (if length siteList = 0 then ''ANY''
      else if length siteList = 1 then hd siteList
      else (let tierSite = tierLoop e siteList (- 1) []
            in if length tierSite = 1
               then ''Group.'' @ join ''.'' (tl (split_dot (hd tierSite)))
               else ''Multiple''))"

definition setJobSite :: "env \<Rightarrow> site list \<Rightarrow> envelope \<times> event list" where
  "setJobSite e siteList =
     (setAttribute e ''Site'' (jobSiteName e siteList),
      [SetAttribute ''Site'' (jobSiteName e siteList)])"

subsection \<open>Sending the job to the task queue\<close>

definition multivalueKeys :: "string list" where
  "multivalueKeys = [''SubmitPools'', ''SubmitPool'', ''GridMiddleware'', ''PilotTypes'',
     ''PilotType'', ''JobType'', ''GridRequiredCEs'', ''GridCE'', ''Tags'']"

definition reqKey :: "string \<Rightarrow> string" where
  "reqKey key =
     (if key = ''JobType'' then ''JobTypes''
      else if key = ''GridRequiredCEs'' \<or> key = ''GridCE'' then ''GridCEs''
      else if key = ''SubmitPools'' \<or> key = ''SubmitPool'' then ''SubmitPools''
      else if key = ''PilotTypes'' \<or> key = ''PilotType'' then ''PilotTypes''
      else key)"

text \<open>
  When the section cannot be had, the code formats its log line with one argument for
  two places, which raises \<^verbatim>\<open>TypeError\<close>.
\<close>

definition sendToTQ :: "env \<Rightarrow> site list \<Rightarrow> site list \<Rightarrow> outcome \<times> event list" where
  "sendToTQ e sites bannedSites =
     (case getManifest e of
        Inl msg \<Rightarrow> (Return (S_ERROR (''Could not retrieve manifest: '' @ msg)), [])
      | Inr manifest \<Rightarrow>
          (let reqSection = ''JobRequirements'';
               ev0 = (if contains manifest reqSection then [] else [CreateSection reqSection])
           in if \<not> sectionOK e reqSection then (Raise TypeError, ev0)
              else
                (let ev1 = (if sites \<noteq> [] then [SetOption ''Sites'' (join '', '' sites)] else []);
                     ev2 = (if bannedSites \<noteq> []
                            then [SetOption ''BannedSites'' (join '', '' bannedSites)] else []);
                     ev3 = concat (map (\<lambda>key. if contains manifest key
                                        then [SetOption (reqKey key)
                                                (join '', '' (getOption manifest key))]
                                        else []) multivalueKeys);
                     (result, ev4) = setJobSite e sites
                 in if result \<noteq> S_OK then (Return result, ev0 @ ev1 @ ev2 @ ev3 @ ev4)
                    else (Return (setNextOptimizer e),
                          ev0 @ ev1 @ ev2 @ ev3 @ ev4 @ [SetNextOptimizer]))))"

subsection \<open>Is staging required?\<close>

text \<open>
  \<^verbatim>\<open>random.shuffle\<close>: for \<open>i\<close> from the last index down to 1, the element at \<open>i\<close> is
  exchanged with the element at a drawn index \<open>j \<le> i\<close>. The draws come from a list;
  a draw is reduced modulo \<open>i + 1\<close>, and is 0 once the list is used up.
\<close>

fun shuffle_from :: "nat \<Rightarrow> nat list \<Rightarrow> 'a list \<Rightarrow> 'a list" where
  "shuffle_from 0 rs xs = xs"
| "shuffle_from (Suc i) rs xs =
     (let j = (case rs of [] \<Rightarrow> 0 | r # rs' \<Rightarrow> r mod (Suc i + 1))
      in shuffle_from i (tl rs) (xs[Suc i := xs ! j, j := xs ! Suc i]))"

definition shuffle :: "nat list \<Rightarrow> 'a list \<Rightarrow> 'a list" where
  "shuffle rs xs = shuffle_from (length xs - 1) rs xs"

text \<open>
  The loop of \<^verbatim>\<open>__resolveStaging\<close> over \<^verbatim>\<open>idSites\<close>, with its variables
  \<^verbatim>\<open>diskSites\<close>, \<^verbatim>\<open>maxOnDisk\<close> and \<^verbatim>\<open>bestSites\<close>; \<open>n\<close> is \<^verbatim>\<open>len( inputData )\<close>.
\<close>

fun resolveLoop :: "nat \<Rightarrow> (site \<times> replica_record) list \<Rightarrow> site list \<Rightarrow> int \<Rightarrow> site list
    \<Rightarrow> site list \<times> int \<times> site list" where
  "resolveLoop n [] diskSites maxOnDisk bestSites = (diskSites, maxOnDisk, bestSites)"
| "resolveLoop n ((site, r) # rest) diskSites maxOnDisk bestSites =
     (let nDisk = disk r;
          diskSites' = (if nDisk > 0 \<and> nDisk = int n then diskSites @ [site] else diskSites)
      in if nDisk > maxOnDisk then resolveLoop n rest diskSites' nDisk [site]
         else if nDisk = maxOnDisk then resolveLoop n rest diskSites' maxOnDisk (bestSites @ [site])
         else resolveLoop n rest diskSites' maxOnDisk bestSites)"

definition resolveStaging :: "env \<Rightarrow> lfn list \<Rightarrow> (site \<times> replica_record) list
    \<Rightarrow> bool \<times> site list" where
  "resolveStaging e inputData idSites =
     (case resolveLoop (length inputData) idSites [] 0 [] of
        (diskSites, maxOnDisk, bestSites) \<Rightarrow>
          if diskSites \<noteq> [] then (False, diskSites)
          else (True, if length bestSites > 1 then shuffle (random e) bestSites else bestSites))"

subsection \<open>May the job stage?\<close>

definition checkStageAllowed :: "env \<Rightarrow> string + bool" where
  "checkStageAllowed e =
     (case getAttribute e ''OwnerGroup'' of
        Inl msg \<Rightarrow> Inl ''Cannot get OwnerGroup''
      | Inr grp \<Rightarrow> Inr (stageAllowed e grp))"

subsection \<open>Building the stage request\<close>

text \<open>The dict \<^verbatim>\<open>stageLFNs\<close>: \<^verbatim>\<open>d[ k ] = v\<close>, \<^verbatim>\<open>d.pop( k )\<close> and appending to \<^verbatim>\<open>d[ k ]\<close>.\<close>

fun dict_set :: "('k \<times> 'v) list \<Rightarrow> 'k \<Rightarrow> 'v \<Rightarrow> ('k \<times> 'v) list" where
  "dict_set [] k v = [(k, v)]"
| "dict_set ((k', v') # d) k v = (if k' = k then (k, v) # d else (k', v') # dict_set d k v)"

definition dict_pop :: "('k \<times> 'v) list \<Rightarrow> 'k \<Rightarrow> ('k \<times> 'v) list" where
  "dict_pop d k = filter (\<lambda>kv. fst kv \<noteq> k) d"

definition addLFN :: "stage_map \<Rightarrow> se \<Rightarrow> lfn \<Rightarrow> stage_map" where
  "addLFN stageLFNs seName l =
     (case map_of stageLFNs seName of
        None \<Rightarrow> dict_set stageLFNs seName [l]
      | Some lfns \<Rightarrow> dict_set stageLFNs seName (lfns @ [l]))"

text \<open>
  The storage elements of the stage site, sorted into \<^verbatim>\<open>tapeSEs\<close> and \<^verbatim>\<open>diskSEs\<close>;
  one status that cannot be had fails the whole method.
\<close>

fun classifySEs :: "env \<Rightarrow> string list \<Rightarrow> se list \<Rightarrow> se list \<Rightarrow> se list
    \<Rightarrow> string + (se list \<times> se list)" where
  "classifySEs e vo [] tapeSEs diskSEs = Inr (tapeSEs, diskSEs)"
| "classifySEs e vo (seName # rest) tapeSEs diskSEs =
     (case getStatus e seName vo of
        Inl msg \<Rightarrow> Inl ''Cannot retrieve SE status''
      | Inr seStatus \<Rightarrow>
          classifySEs e vo rest
            (if Read seStatus \<and> TapeSE seStatus then tapeSEs @ [seName] else tapeSEs)
            (if Read seStatus \<and> DiskSE seStatus then diskSEs @ [seName] else diskSEs))"

text \<open>
  The scan of the replicas of one LFN: a replica on a disk SE of the site empties
  \<^verbatim>\<open>seStage\<close> and ends the scan, a replica on a tape SE of the site is collected.
\<close>

fun scanReplicas :: "se list \<Rightarrow> se list \<Rightarrow> se list \<Rightarrow> se list \<Rightarrow> se list" where
  "scanReplicas diskSEs tapeSEs [] seStage = seStage"
| "scanReplicas diskSEs tapeSEs (seName # replicas) seStage =
     (if seName \<in> set diskSEs then []
      else if seName \<notin> set tapeSEs then scanReplicas diskSEs tapeSEs replicas seStage
      else scanReplicas diskSEs tapeSEs replicas (seStage @ [seName]))"

fun stageAt :: "lfn \<Rightarrow> se list \<Rightarrow> stage_map \<times> lfn list \<Rightarrow> stage_map \<times> lfn list" where
  "stageAt l [] st = st"
| "stageAt l (seName # seStage) (stageLFNs, lfnToStage) =
     stageAt l seStage
       (addLFN stageLFNs seName l, if l \<in> set lfnToStage then lfnToStage else lfnToStage @ [l])"

fun collectStage :: "se list \<Rightarrow> se list \<Rightarrow> (lfn \<times> se list) list \<Rightarrow> stage_map \<times> lfn list
    \<Rightarrow> stage_map \<times> lfn list" where
  "collectStage diskSEs tapeSEs [] st = st"
| "collectStage diskSEs tapeSEs ((l, replicas) # inputData) st =
     collectStage diskSEs tapeSEs inputData
       (stageAt l (scanReplicas diskSEs tapeSEs replicas []) st)"

text \<open>
  \<^verbatim>\<open>reversed( sorted( [ ( len( stageLFNs[ seName ] ), seName ) ... ] ) )\<close>: the pairs in
  descending order, as the items the iterator will give.
\<close>

definition sortedSEs :: "stage_map \<Rightarrow> (nat \<times> se) list" where
  "sortedSEs stageLFNs = rev (sort (map (\<lambda>kv. (length (snd kv), fst kv)) stageLFNs))"

text \<open>
  The inner loop over what is left of the iterator \<^verbatim>\<open>sortedSEs\<close>, for one LFN. Reading
  \<^verbatim>\<open>stageLFNs[ seName ]\<close> for a name that was popped raises \<^verbatim>\<open>KeyError\<close>.
\<close>

fun walkSEs :: "lfn \<Rightarrow> (nat \<times> se) list \<Rightarrow> bool \<Rightarrow> stage_map \<Rightarrow> py_exc + stage_map" where
  "walkSEs l [] found stageLFNs = Inr stageLFNs"
| "walkSEs l ((stageCount, seName) # rest) found stageLFNs =
     (case map_of stageLFNs seName of
        None \<Rightarrow> Inl KeyError
      | Some lfns \<Rightarrow>
          (let lfns' = (if l \<in> set lfns \<and> found then remove1 l lfns else lfns);
               found' = (found \<or> l \<in> set lfns);
               stageLFNs' = (if length lfns' = 0 then dict_pop stageLFNs seName
                             else dict_set stageLFNs seName lfns')
           in walkSEs l rest found' stageLFNs'))"

text \<open>
  The outer loop over \<^verbatim>\<open>lfnToStage\<close>. \<^verbatim>\<open>sortedSEs\<close> is an iterator, made once before
  the loop: the inner loop of the first LFN runs it to its end, and the inner loop of
  every later LFN finds nothing left in it. The second argument is what the iterator
  still holds.
\<close>

fun minimize :: "lfn list \<Rightarrow> (nat \<times> se) list \<Rightarrow> stage_map \<Rightarrow> py_exc + stage_map" where
  "minimize [] it stageLFNs = Inr stageLFNs"
| "minimize (l # lfnToStage) it stageLFNs =
     (case walkSEs l it False stageLFNs of
        Inl exc \<Rightarrow> Inl exc
      | Inr stageLFNs' \<Rightarrow> minimize lfnToStage [] stageLFNs')"

definition preRequestStaging :: "env \<Rightarrow> site \<Rightarrow> opData \<Rightarrow> py_exc + (string + stage_map)" where
  "preRequestStaging e stageSite opData =
     (case getSEsForSite e stageSite of
        Inl msg \<Rightarrow> Inr (Inl (''Could not determine SEs for site '' @ stageSite))
      | Inr siteSEs \<Rightarrow>
     (case getManifest e of
        Inl msg \<Rightarrow> Inr (Inl msg)
      | Inr manifest \<Rightarrow>
     (case classifySEs e (getOption manifest ''VirtualOrganization'') siteSEs [] [] of
        Inl msg \<Rightarrow> Inr (Inl msg)
      | Inr (tapeSEs, diskSEs) \<Rightarrow>
          if tapeSEs = [] then Inr (Inl (''No Local SEs for site '' @ stageSite))
          else
     (case Successful opData of
        None \<Rightarrow> Inl KeyError
      | Some inputData \<Rightarrow>
     (case collectStage diskSEs tapeSEs inputData ([], []) of
        (stageLFNs, lfnToStage) \<Rightarrow>
          if stageLFNs = [] then Inr (Inl ''Cannot find tape replicas'')
          else
     (case minimize lfnToStage (sortedSEs stageLFNs) stageLFNs of
        Inl exc \<Rightarrow> Inl exc
      | Inr stageLFNs' \<Rightarrow> Inr (Inr stageLFNs')))))))"

subsection \<open>Sending the stage request\<close>

definition requestStaging :: "env \<Rightarrow> stage_map \<Rightarrow> (string + stage_map) \<times> event list" where
  "requestStaging e stageLFNs =
     (let status = ex_getOption (cfg_StagingStatus e) ''Staging'';
          minor1 = ex_getOption (cfg_StagingMinorStatus e) ''Request To Be Sent'';
          minor2 = ex_getOption (cfg_StagingMinorStatus e) ''Request Sent''
      in case setStatus e 0 status minor1 of
           S_ERROR msg \<Rightarrow> (Inl msg, [SetStatus status minor1])
         | S_OK \<Rightarrow>
        (case setRequest e stageLFNs (jid e) of
           Inl msg \<Rightarrow> (Inl ''Problem sending staging request'',
                        [SetStatus status minor1, SetRequest stageLFNs (jid e)])
         | Inr v \<Rightarrow>
             (let rid = str_int v;
                  events = [SetStatus status minor1, SetRequest stageLFNs (jid e),
                            SetParameter ''StageRequest'' rid, SetStatus status minor2]
              in case setStatus e 1 status minor2 of
                   S_ERROR msg \<Rightarrow> (Inl msg, events)
                 | S_OK \<Rightarrow> (Inr stageLFNs, events))))"

subsection \<open>Sites that share a staged storage element\<close>

text \<open>The two rewrites of a replica record the code makes.\<close>

definition stagedAsDone :: "replica_record \<Rightarrow> replica_record" where
  "stagedAsDone stageData = stageData\<lparr>disk := disk stageData + tape stageData, tape := 0\<rparr>"

definition toDisk :: "replica_record \<Rightarrow> replica_record" where
  "toDisk siteData = siteData\<lparr>disk := disk siteData + 1, tape := tape siteData - 1\<rparr>"

text \<open>
  The disk SEs among the SEs close to a site; \<^verbatim>\<open>seStatus\<close> is the dict of the
  statuses already fetched, kept from one site to the next.
\<close>

fun closeDiskSEs :: "env \<Rightarrow> string list \<Rightarrow> se list \<Rightarrow> (se \<times> se_status) list \<Rightarrow> se list
    \<Rightarrow> se list \<times> (se \<times> se_status) list" where
  "closeDiskSEs e vo [] seStatus diskSEs = (diskSEs, seStatus)"
| "closeDiskSEs e vo (seName # closeSEs) seStatus diskSEs =
     (case map_of seStatus seName of
        Some status \<Rightarrow>
          closeDiskSEs e vo closeSEs seStatus
            (if Read status \<and> DiskSE status then diskSEs @ [seName] else diskSEs)
      | None \<Rightarrow>
          (case getStatus e seName vo of
             Inl msg \<Rightarrow> closeDiskSEs e vo closeSEs seStatus diskSEs
           | Inr status \<Rightarrow>
               closeDiskSEs e vo closeSEs (dict_set seStatus seName status)
                 (if Read status \<and> DiskSE status then diskSEs @ [seName] else diskSEs)))"

fun promoteLFNs :: "(lfn \<times> se list) list \<Rightarrow> se list \<Rightarrow> lfn list \<Rightarrow> replica_record
    \<Rightarrow> replica_record" where
  "promoteLFNs lfnData diskSEs [] siteData = siteData"
| "promoteLFNs lfnData diskSEs (l # lfns) siteData =
     (case map_of lfnData l of
        None \<Rightarrow> promoteLFNs lfnData diskSEs lfns siteData
      | Some replicas \<Rightarrow>
          (let onDisk = list_ex (\<lambda>siteSE. siteSE \<in> set diskSEs) replicas
           in promoteLFNs lfnData diskSEs lfns (if \<not> onDisk then toDisk siteData else siteData)))"

fun promoteSEs :: "(lfn \<times> se list) list \<Rightarrow> se list \<Rightarrow> se list \<Rightarrow> stage_map \<Rightarrow> replica_record
    \<Rightarrow> replica_record" where
  "promoteSEs lfnData closeSEs diskSEs [] siteData = siteData"
| "promoteSEs lfnData closeSEs diskSEs ((seName, lfns) # stagedLFNs) siteData =
     (if seName \<notin> set closeSEs then promoteSEs lfnData closeSEs diskSEs stagedLFNs siteData
      else promoteSEs lfnData closeSEs diskSEs stagedLFNs
             (promoteLFNs lfnData diskSEs lfns siteData))"

text \<open>
  The loop over the sites of \<^verbatim>\<open>siteCandidates\<close>: \<open>todo\<close> are the sites still to visit,
  \<open>done\<close> the sites visited, with their records as they are now.
\<close>

fun updateSites :: "env \<Rightarrow> string list \<Rightarrow> site \<Rightarrow> stage_map \<Rightarrow> (lfn \<times> se list) list option
    \<Rightarrow> (site \<times> replica_record) list \<Rightarrow> (site \<times> replica_record) list \<Rightarrow> (se \<times> se_status) list
    \<Rightarrow> py_exc + (site \<times> replica_record) list" where
  "updateSites e vo stageSite stagedLFNs lfnDataOpt [] done seStatus = Inr done"
| "updateSites e vo stageSite stagedLFNs lfnDataOpt ((siteName, siteData) # todo) done seStatus =
     (if siteName = stageSite
      then updateSites e vo stageSite stagedLFNs lfnDataOpt todo (done @ [(siteName, siteData)])
             seStatus
      else
        (case getSEsForSite e siteName of
           Inl msg \<Rightarrow>
             updateSites e vo stageSite stagedLFNs lfnDataOpt todo (done @ [(siteName, siteData)])
               seStatus
         | Inr closeSEs \<Rightarrow>
             (case closeDiskSEs e vo closeSEs seStatus [] of
                (diskSEs, seStatus') \<Rightarrow>
                  (case lfnDataOpt of
                     None \<Rightarrow> Inl KeyError
                   | Some lfnData \<Rightarrow>
                       updateSites e vo stageSite stagedLFNs lfnDataOpt todo
                         (done @ [(siteName, promoteSEs lfnData closeSEs diskSEs stagedLFNs siteData)])
                         seStatus'))))"

text \<open>
  \<^verbatim>\<open>__updateSharedSESites\<close> changes the records of \<^verbatim>\<open>opData\<close> in place; the model gives
  the record as it is when the method ends.
\<close>

definition updateSharedSESites :: "env \<Rightarrow> site \<Rightarrow> stage_map \<Rightarrow> opData \<Rightarrow> py_exc + opData" where
  "updateSharedSESites e stageSite stagedLFNs opData =
     (case SiteCandidates opData of
        None \<Rightarrow> Inl KeyError
      | Some siteCandidates \<Rightarrow>
     (case getManifest e of
        Inl msg \<Rightarrow> Inr opData
      | Inr manifest \<Rightarrow>
     (case updateSites e (getOption manifest ''VirtualOrganization'') stageSite stagedLFNs
             (Successful opData) siteCandidates [] [] of
        Inl exc \<Rightarrow> Inl exc
      | Inr siteCandidates' \<Rightarrow> Inr (opData\<lparr>SiteCandidates := Some siteCandidates'\<rparr>))))"

subsection \<open>The method \<^verbatim>\<open>optimizeJob\<close>\<close>

text \<open>
  The method is cut at its own comments into four parts, last part first: staging for a
  user job, a user job with input data, a production job, and the head of the method
  with the reschedule delay.
\<close>

text \<open>
  From \<^verbatim>\<open>stageSite = stageSites[0]\<close> to the end. \<^verbatim>\<open>stageData\<close> is the very dict that
  \<^verbatim>\<open>opData[ 'SiteCandidates' ][ stageSite ]\<close> holds, so the record of the stage site
  changes there.
\<close>

definition stageJob :: "env \<Rightarrow> string \<Rightarrow> opData \<Rightarrow> (site \<times> replica_record) list
    \<Rightarrow> (site \<times> replica_record) list \<Rightarrow> site list \<Rightarrow> outcome \<times> event list" where
  "stageJob e idAgent opData siteCandidates idSites stageSites =
     (case py_index stageSites 0 of
        Inl exc \<Rightarrow> (Raise exc, [])
      | Inr stageSite \<Rightarrow>
     (case map_of idSites stageSite of
        None \<Rightarrow> (Raise KeyError, [])
      | Some stageData \<Rightarrow>
     (let opData1 = opData\<lparr>SiteCandidates :=
                       Some (dict_set siteCandidates stageSite (stagedAsDone stageData))\<rparr>
      in case preRequestStaging e stageSite opData1 of
           Inl exc \<Rightarrow> (Raise exc, [])
         | Inr (Inl msg) \<Rightarrow> (Return (S_ERROR msg), [])
         | Inr (Inr stageLFNs) \<Rightarrow>
        (case requestStaging e stageLFNs of
           (Inl msg, events) \<Rightarrow> (Return (S_ERROR msg), events)
         | (Inr stageLFNs', events) \<Rightarrow>
        (case updateSharedSESites e stageSite stageLFNs' opData1 of
           Inl exc \<Rightarrow> (Raise exc, events)
         | Inr opData2 \<Rightarrow>
        (case storeOptimizerParam e idAgent opData2 of
           S_ERROR msg \<Rightarrow> (Return (S_ERROR msg), events @ [StoreOptimizerParam idAgent opData2])
         | S_OK \<Rightarrow>
             (Return (fst (setJobSite e stageSites)),
              events @ [StoreOptimizerParam idAgent opData2] @ snd (setJobSite e stageSites))))))))"

text \<open>From \<^verbatim>\<open>idAgent = ...\<close> to the check whether the user may stage.\<close>

definition userJob :: "env \<Rightarrow> lfn list \<Rightarrow> site list \<Rightarrow> site list \<Rightarrow> site list
    \<Rightarrow> outcome \<times> event list" where
  "userJob e inputData userSites userBannedSites wmsBannedSites =
     (let idAgent = ex_getOption (cfg_InputDataAgent e) ''InputData''
      in case retrieveOptimizerParam e idAgent of
           Inl msg \<Rightarrow> (Return (S_ERROR ''Could not retrieve input data info''), [])
         | Inr opData \<Rightarrow>
        (case SiteCandidates opData of
           None \<Rightarrow> (Return (S_ERROR ''No possible site candidates''), [])
         | Some candidates \<Rightarrow>
        (let siteCandidates =
               applySiteFilter
                 (list_of_set (filter (\<lambda>site. site \<in> set userSites) (map fst candidates)))
                 (BList userBannedSites)
         in if siteCandidates = []
            then (Return (S_ERROR ''Impossible InputData * Site requirements''), [])
            else
        (let idSites0 = List.map_filter
                          (\<lambda>site. map_option (Pair site) (map_of candidates site)) siteCandidates;
             numData = int (length inputData);
             idSites = filter (\<lambda>sr. numData = disk (snd sr) + tape (snd sr)) idSites0
         in if idSites = []
            then (Return (S_ERROR ''Site candidates do not have all the input data''), [])
            else
        (case resolveStaging e inputData idSites of
           (stageRequired, siteCandidates') \<Rightarrow>
             if siteCandidates' = []
             then (Return (S_ERROR ''No destination sites available''), [])
             else
        (let stageSites = applySiteFilter siteCandidates' (BList wmsBannedSites)
         in if stageSites = []
            then holdJob e (''Sites '' @ join '', '' siteCandidates' @ '' are inactive or banned'') 0
            else if \<not> stageRequired
            then sendToTQ e siteCandidates' userBannedSites
            else
        (case (if ex_getOption (cfg_RestrictDataStage e) False then checkStageAllowed e
               else Inr True) of
           Inl msg \<Rightarrow> (Return (S_ERROR msg), [])
         | Inr allowed \<Rightarrow>
             if \<not> allowed then (Return (S_ERROR ''Stage not allowed''), [])
             else stageJob e idAgent opData candidates idSites stageSites)))))))"

text \<open>
  The production job: the reply of \<^verbatim>\<open>getFilesToStage\<close> is read at \<^verbatim>\<open>'offlineLFNs'\<close>,
  and what \<^verbatim>\<open>__requestStaging\<close> returns is dropped.
\<close>

definition productionJob :: "env \<Rightarrow> lfn list \<Rightarrow> site list \<Rightarrow> site list \<Rightarrow> outcome \<times> event list" where
  "productionJob e inputData userSites userBannedSites =
     (case getAttribute e ''Owner'' of
        Inl msg \<Rightarrow> (Return (S_ERROR msg), [])
      | Inr userName \<Rightarrow>
     (case getAttribute e ''OwnerGroup'' of
        Inl msg \<Rightarrow> (Return (S_ERROR msg), [])
      | Inr userGroup \<Rightarrow>
     (case getFilesToStage e inputData userName userGroup of
        Inl msg \<Rightarrow> holdJob e msg 0
      | Inr stageLFNs \<Rightarrow>
          if stageLFNs \<noteq> []
          then (case checkStageAllowed e of
                  Inl msg \<Rightarrow> (Return (S_ERROR msg), [])
                | Inr allowed \<Rightarrow>
                    if \<not> allowed then (Return (S_ERROR ''Stage not allowed''), [])
                    else (Return S_OK, snd (requestStaging e stageLFNs)))
          else sendToTQ e userSites userBannedSites)))"

text \<open>From \<^verbatim>\<open>__getSitesRequired\<close> to the choice between the kinds of job.\<close>

definition scheduleJob :: "env \<Rightarrow> outcome \<times> event list" where
  "scheduleJob e =
     (case getSitesRequired e of
        Inl msg \<Rightarrow> (Return (S_ERROR msg), [])
      | Inr (userSites, userBannedSites) \<Rightarrow>
     (case getAttribute e ''JobType'' of
        Inl msg \<Rightarrow> (Return (S_ERROR ''Could not retrieve job type''), [])
      | Inr jobType \<Rightarrow>
     (case getSiteMask e of
        Inl msg \<Rightarrow> (Return (S_ERROR ''Cannot retrieve banned sites from JobDB''), [])
      | Inr wmsBannedSites \<Rightarrow>
          if userSites \<noteq> [] \<and> jobType \<notin> set (ex_getOption (cfg_ExcludedOnHoldJobTypes e) [])
             \<and> applySiteFilter userSites (BList wmsBannedSites) = []
          then (if length userSites > 1
                then holdJob e (''Requested sites '' @ join '','' userSites @ '' are inactive'') 0
                else holdJob e (''Requested site '' @ hd userSites @ '' is inactive'') 0)
          else
     (case getInputData e of
        Inl msg \<Rightarrow> (Return (S_ERROR ''Failed to get input data from JobDB''), [])
      | Inr inputData \<Rightarrow>
          if inputData = [] then sendToTQ e userSites userBannedSites
          else if jobType \<in> set (dataProcessing e)
          then productionJob e inputData userSites userBannedSites
          else userJob e inputData userSites userBannedSites wmsBannedSites))))"

definition optimizeJob :: "env \<Rightarrow> outcome \<times> event list" where
  "optimizeJob e =
     (case getAttributes e of
        Inl msg \<Rightarrow> (Return (S_ERROR msg), [])
      | Inr attDict \<Rightarrow>
     (case RescheduleCounter attDict of
        None \<Rightarrow> (Return (S_ERROR ''RescheduleCounter has to be an integer''), [])
      | Some reschedules \<Rightarrow>
          if reschedules \<noteq> 0
          then (let delays = ex_getOption (cfg_RescheduleDelays e) [60, 180, 300, 600]
                in case py_index delays (min reschedules (int (length delays) - 1)) of
                     Inl exc \<Rightarrow> (Raise exc, [])
                   | Inr delay \<Rightarrow>
                       (let waited = now e - RescheduleTime attDict
                        in if waited < delay
                           then holdJob e (''On Hold: after rescheduling '' @ str_int reschedules)
                                  delay
                           else scheduleJob e))
          else scheduleJob e))"

subsection \<open>Environments for the examples\<close>

text \<open>
  A quiet environment: no option is set, the job was never rescheduled, has no site
  requirement and no input data, every collaborator answers, no site, storage element
  or optimizer record is known. The examples below change a few fields of it.
\<close>

definition quiet :: env where
  "quiet =
     \<lparr> cfg_RescheduleDelays = None, cfg_ExcludedOnHoldJobTypes = None, cfg_HoldTime = None,
       cfg_StagingStatus = None, cfg_StagingMinorStatus = None, cfg_InputDataAgent = None,
       cfg_RestrictDataStage = None,
       jid = 7, now = 1000, random = [],
       getAttributes = Inr \<lparr> RescheduleCounter = Some 0, RescheduleTime = 0 \<rparr>,
       getAttribute = (\<lambda>name. Inr (if name = ''JobType'' then ''User''
                                      else if name = ''Owner'' then ''alice'' else ''users'')),
       getManifest = Inr \<lparr> options = [], sections = [] \<rparr>,
       getInputData = Inr [],
       getSiteMask = Inr [],
       dataProcessing = [],
       getFilesToStage = (\<lambda>lfns userName userGroup. Inr []),
       stageAllowed = (\<lambda>grp. True),
       retrieveOptimizerParam = (\<lambda>name. Inl ''no such parameter''),
       getSEsForSite = (\<lambda>siteName. Inr []),
       getStatus = (\<lambda>seName vo. Inl ''no such storage element''),
       getSiteTier = (\<lambda>siteName. Inl ''no such site''),
       sectionOK = (\<lambda>name. True),
       setAppStatus = (\<lambda>msg. S_OK),
       setStatus = (\<lambda>n major minor. S_OK),
       setRequest = (\<lambda>stageLFNs jobId. Inr 42),
       setAttribute = (\<lambda>name v. S_OK),
       storeOptimizerParam = (\<lambda>name opData. S_OK),
       setNextOptimizer = S_OK \<rparr>"

text \<open>The status of a tape SE that can be read.\<close>

definition tapeStatus :: se_status where
  "tapeStatus = \<lparr> Read = True, Write = True, DiskSE = False, TapeSE = True \<rparr>"

text \<open>
  A user job with one input file and no site requirement; the InputData optimizer found
  the file on disk at the site \<open>LCG.CERN.ch\<close>.
\<close>

definition userJobNoSite :: env where
  "userJobNoSite =
     quiet\<lparr> getInputData := Inr [''/lhcb/f1''],
            retrieveOptimizerParam := (\<lambda>name. Inr
              \<lparr> SiteCandidates = Some [(''LCG.CERN.ch'', \<lparr> disk = 1, tape = 0 \<rparr>)],
                Successful = Some [(''/lhcb/f1'', [''CERN-DISK''])] \<rparr>) \<rparr>"

text \<open>The same job asking for the site \<open>LCG.CERN.ch\<close>.\<close>

definition userJobOneSite :: env where
  "userJobOneSite =
     userJobNoSite\<lparr> getManifest :=
       Inr \<lparr> options = [(''Site'', [''LCG.CERN.ch''])], sections = [] \<rparr> \<rparr>"

text \<open>
  A site with the two readable tape SEs \<open>T1\<close> and \<open>T2\<close>, and two files that each have a
  replica on both.
\<close>

definition twoTapeSEs :: env where
  "twoTapeSEs =
     quiet\<lparr> getSEsForSite := (\<lambda>siteName. Inr [''T1'', ''T2'']),
            getStatus := (\<lambda>seName vo. Inr tapeStatus) \<rparr>"

definition twoFiles :: opData where
  "twoFiles =
     \<lparr> SiteCandidates = Some [(''LCG.CERN.ch'', \<lparr> disk = 2, tape = 0 \<rparr>)],
       Successful = Some [(''/lhcb/a'', [''T1'', ''T2'']), (''/lhcb/b'', [''T1'', ''T2''])] \<rparr>"

text \<open>
  A production job with one input file that is offline on the SE \<open>T1\<close>, and a stager
  that refuses the request.
\<close>

definition productionStagerDown :: env where
  "productionStagerDown =
     quiet\<lparr> getAttribute := (\<lambda>name. Inr (if name = ''JobType'' then ''DataReconstruction''
                                            else if name = ''Owner'' then ''alice''
                                            else ''lhcb_prod'')),
            dataProcessing := [''DataReconstruction''],
            getInputData := Inr [''/lhcb/f1''],
            getFilesToStage := (\<lambda>lfns userName userGroup. Inr [(''T1'', [''/lhcb/f1''])]),
            setRequest := (\<lambda>stageLFNs jobId. Inl ''stager is down'') \<rparr>"

text \<open>The user job of above with the same stager, and its file on tape only.\<close>

definition userStagerDown :: env where
  "userStagerDown =
     quiet\<lparr> getInputData := Inr [''/lhcb/f1''],
            retrieveOptimizerParam := (\<lambda>name. Inr
              \<lparr> SiteCandidates = Some [(''LCG.CERN.ch'', \<lparr> disk = 0, tape = 1 \<rparr>)],
                Successful = Some [(''/lhcb/f1'', [''T1''])] \<rparr>),
            getManifest := Inr \<lparr> options = [(''Site'', [''LCG.CERN.ch''])], sections = [] \<rparr>,
            getSEsForSite := (\<lambda>siteName. Inr [''T1'']),
            getStatus := (\<lambda>seName vo. Inr tapeStatus),
            setRequest := (\<lambda>stageLFNs jobId. Inl ''stager is down'') \<rparr>"

text \<open>A job rescheduled once, 100 seconds ago.\<close>

definition rescheduledOnce :: env where
  "rescheduledOnce =
     quiet\<lparr> getAttributes := Inr \<lparr> RescheduleCounter = Some 1, RescheduleTime = 900 \<rparr> \<rparr>"

text \<open>
  Two sites close to the tape SE \<open>T1\<close>. The second is also close to the disk SE \<open>D1\<close>,
  which holds a replica of the file but does not give its status.
\<close>

definition sharedTape :: env where
  "sharedTape =
     quiet\<lparr> getSEsForSite := (\<lambda>siteName. if siteName = ''LCG.CERN.ch'' then Inr [''T1'']
                                         else Inr [''T1'', ''D1'']),
            getStatus := (\<lambda>seName vo. if seName = ''T1'' then Inr tapeStatus
                                       else Inl ''no reply'') \<rparr>"

definition sharedTapeData :: opData where
  "sharedTapeData =
     \<lparr> SiteCandidates = Some [(''LCG.CERN.ch'', \<lparr> disk = 1, tape = 0 \<rparr>),
                               (''LCG.NIKHEF.nl'', \<lparr> disk = 1, tape = 0 \<rparr>)],
       Successful = Some [(''/lhcb/f1'', [''T1'', ''D1''])] \<rparr>"

text \<open>Three sites and their tiers; the tier of the fourth cannot be had.\<close>

definition tiers :: env where
  "tiers =
     quiet\<lparr> getSiteTier := (\<lambda>siteName.
       if siteName = ''LCG.CERN.ch'' then Inr 0
       else if siteName = ''LCG.CNAF.it'' then Inr 2
       else if siteName = ''LCG.Pisa.it'' then Inr 2
       else Inl ''no such site'') \<rparr>"

subsection \<open>Notions of the specification\<close>

text \<open>
  The invariant of a replica record for a job with \<open>n\<close> input files: both counts are
  non-negative and together they do not exceed \<open>n\<close>.
\<close>

definition record_inv :: "nat \<Rightarrow> replica_record \<Rightarrow> bool" where
  "record_inv n r = (0 \<le> disk r \<and> 0 \<le> tape r \<and> disk r + tape r \<le> int n)"

text \<open>The sites of \<^verbatim>\<open>idSites\<close> that have every input file on disk, in the order of the dict.\<close>

definition diskSitesOf :: "lfn list \<Rightarrow> (site \<times> replica_record) list \<Rightarrow> site list" where
  "diskSitesOf inputData idSites =
     map fst (filter (\<lambda>sr. disk (snd sr) = int (length inputData)) idSites)"

text \<open>The sites of \<^verbatim>\<open>idSites\<close> whose disk count no other site exceeds, in the order of the dict.\<close>

definition maxDiskSites :: "(site \<times> replica_record) list \<Rightarrow> site list" where
  "maxDiskSites idSites =
     map fst (filter (\<lambda>sr. list_all (\<lambda>sr'. disk (snd sr') \<le> disk (snd sr)) idSites) idSites)"

text \<open>
  The tier of a site as the summary counts it: none when the look-up fails, tier 0
  counted as tier 1.
\<close>

definition tierOf :: "env \<Rightarrow> site \<Rightarrow> int option" where
  "tierOf e siteName =
     (case getSiteTier e siteName of Inl msg \<Rightarrow> None | Inr t \<Rightarrow> Some (if t = 0 then 1 else t))"

text \<open>No site of the list has a tier below \<open>t\<close>.\<close>

abbreviation no_tier_below :: "env \<Rightarrow> int \<Rightarrow> site list \<Rightarrow> bool" where
  "no_tier_below e t siteList \<equiv>
     list_all (\<lambda>s'. case tierOf e s' of None \<Rightarrow> True | Some t' \<Rightarrow> t \<le> t') siteList"

text \<open>The sites of a list that have a tier, and no site of the list has a smaller one.\<close>

definition minTierSites :: "env \<Rightarrow> site list \<Rightarrow> site list" where
  "minTierSites e siteList =
     filter (\<lambda>s. case tierOf e s of None \<Rightarrow> False | Some t \<Rightarrow> no_tier_below e t siteList)
       siteList"

text \<open>A site name without its first token and the dot after it.\<close>

definition dropToken :: "string \<Rightarrow> string" where
  "dropToken s = drop 1 (dropWhile (\<lambda>c. c \<noteq> CHR ''.'') s)"

section \<open>Properties\<close>

subsection \<open>Site filter\<close>

lemma set_list_of_set: "set (list_of_set xs) = set xs"
  by (simp add: list_of_set_def)

lemma distinct_list_of_set: "distinct (list_of_set xs)"
  by (simp add: list_of_set_def)

lemma applySiteFilter_Nil: "applySiteFilter [] banned = []"
  by (simp add: applySiteFilter_def)

lemma set_applySiteFilter_BList:
  "set (applySiteFilter sites (BList banned)) = set sites - set banned"
  by (auto simp: applySiteFilter_def set_list_of_set)

lemma distinct_applySiteFilter: "sites \<noteq> [] \<Longrightarrow> distinct (applySiteFilter sites banned)"
  by (simp add: applySiteFilter_def distinct_list_of_set)

text \<open>
  C6, as the code has it. When \<^verbatim>\<open>banned\<close> is falsy, or is not a list, a set or a dict,
  the filter gives the sites of its input, each of them once: it goes through
  \<^verbatim>\<open>set( sites )\<close>, so a site given twice is returned once and the order of the input is
  not kept. Only the empty list is returned as it is.
\<close>

theorem C6_filter_without_banned:
  assumes "\<not> truthy banned \<or> \<not> is_list_set_dict banned"
  shows "set (applySiteFilter sites banned) = set sites
         \<and> distinct (applySiteFilter sites banned)
         \<and> (sites = [] \<longrightarrow> applySiteFilter sites banned = sites)"
  using assms by (auto simp: applySiteFilter_def set_list_of_set distinct_list_of_set)

theorem C6_filter_without_banned_witness:
  "set (applySiteFilter [''LCG.CERN.ch'', ''LCG.CNAF.it'', ''LCG.CERN.ch''] (BBool False))
     = set [''LCG.CERN.ch'', ''LCG.CNAF.it'', ''LCG.CERN.ch'']
   \<and> distinct (applySiteFilter [''LCG.CERN.ch'', ''LCG.CNAF.it'', ''LCG.CERN.ch''] (BBool False))"
  using C6_filter_without_banned
    [of "BBool False" "[''LCG.CERN.ch'', ''LCG.CNAF.it'', ''LCG.CERN.ch'']"]
  by simp

text \<open>
  C6 as the specification states it fails: with \<^verbatim>\<open>banned = False\<close>, a list that names
  a site twice comes back with the site once.
\<close>

theorem C6_duplicates_counterexample:
  "truthy (BBool False) = False
   \<and> applySiteFilter [''LCG.CERN.ch'', ''LCG.CERN.ch''] (BBool False)
       \<noteq> [''LCG.CERN.ch'', ''LCG.CERN.ch'']"
  by (simp add: applySiteFilter_def list_of_set_def)

subsection \<open>Input data and user sites\<close>

lemma userJob_no_userSites:
  "fst (userJob e inputData [] userBannedSites wmsBannedSites)
     \<in> {Return (S_ERROR ''Could not retrieve input data info''),
         Return (S_ERROR ''No possible site candidates''),
         Return (S_ERROR ''Impossible InputData * Site requirements'')}"
  by (simp add: userJob_def Let_def list_of_set_def applySiteFilter_def
        split: sum.splits option.splits)

text \<open>
  C1, evaluated. A user job with input data and no site requirement is failed with
  \<^verbatim>\<open>Impossible InputData * Site requirements\<close>, although a site holds its input on
  disk: \<^verbatim>\<open>set( siteCandidates ) & set( userSites )\<close> is empty when \<^verbatim>\<open>userSites\<close> is.
  The same job asking for that site is sent to the task queue.
\<close>

theorem C1_no_user_site_is_refused:
  "optimizeJob userJobNoSite
     = (Return (S_ERROR ''Impossible InputData * Site requirements''), [])
   \<and> optimizeJob userJobOneSite
     = (Return S_OK,
        [CreateSection ''JobRequirements'', SetOption ''Sites'' ''LCG.CERN.ch'',
         SetAttribute ''Site'' ''LCG.CERN.ch'', SetNextOptimizer])"
  by code_simp

subsection \<open>The stage request\<close>

text \<open>
  Once the iterator is used up the loop over \<^verbatim>\<open>lfnToStage\<close> changes nothing, so only
  the first LFN is ever looked for in more than one list.
\<close>

lemma minimize_exhausted: "minimize lfnToStage [] stageLFNs = Inr stageLFNs"
  by (induction lfnToStage arbitrary: stageLFNs) simp_all

lemma minimize_only_first:
  "minimize (l # lfnToStage) it stageLFNs = walkSEs l it False stageLFNs"
  by (cases "walkSEs l it False stageLFNs") (simp_all add: minimize_exhausted)

text \<open>
  C2, evaluated. Two files have a replica on each of two tape SEs of the stage site.
  The loop that leaves each file on one SE runs over the iterator \<^verbatim>\<open>sortedSEs\<close>, which
  the first file uses up: the second file stays in the lists of both SEs.
\<close>

theorem C2_second_file_on_two_SEs:
  "preRequestStaging twoTapeSEs ''LCG.CERN.ch'' twoFiles
     = Inr (Inr [(''T1'', [''/lhcb/b'']), (''T2'', [''/lhcb/a'', ''/lhcb/b''])])"
  by code_simp

subsection \<open>The stager\<close>

lemma requestStaging_events:
  "snd (requestStaging e stageLFNs) =
     (let status = ex_getOption (cfg_StagingStatus e) ''Staging'';
          minor1 = ex_getOption (cfg_StagingMinorStatus e) ''Request To Be Sent'';
          minor2 = ex_getOption (cfg_StagingMinorStatus e) ''Request Sent''
      in if setStatus e 0 status minor1 \<noteq> S_OK then [SetStatus status minor1]
         else case setRequest e stageLFNs (jid e) of
                Inl msg \<Rightarrow> [SetStatus status minor1, SetRequest stageLFNs (jid e)]
              | Inr v \<Rightarrow> [SetStatus status minor1, SetRequest stageLFNs (jid e),
                           SetParameter ''StageRequest'' (str_int v), SetStatus status minor2])"
  by (simp add: requestStaging_def Let_def split: envelope.splits sum.splits)

text \<open>
  A production job with offline files that may stage: whatever \<^verbatim>\<open>__requestStaging\<close>
  returns, \<^verbatim>\<open>optimizeJob\<close> goes on to \<^verbatim>\<open>return S_OK()\<close>.
\<close>

lemma productionJob_drops_stager_result:
  assumes "getAttribute e ''Owner'' = Inr userName"
    and "getAttribute e ''OwnerGroup'' = Inr userGroup"
    and "getFilesToStage e inputData userName userGroup = Inr stageLFNs"
    and "stageLFNs \<noteq> []" and "stageAllowed e userGroup"
  shows "productionJob e inputData userSites userBannedSites
           = (Return S_OK, snd (requestStaging e stageLFNs))"
  using assms by (simp add: productionJob_def checkStageAllowed_def)

text \<open>
  C3, evaluated. The stager refuses the request of a production job: \<^verbatim>\<open>optimizeJob\<close>
  drops what \<^verbatim>\<open>__requestStaging\<close> returns and returns \<^verbatim>\<open>S_OK()\<close>. For the user job the
  same refusal is returned as \<^verbatim>\<open>Problem sending staging request\<close>.
\<close>

theorem C3_production_job_hides_stager_failure:
  "optimizeJob productionStagerDown
     = (Return S_OK,
        [SetStatus ''Staging'' ''Request To Be Sent'', SetRequest [(''T1'', [''/lhcb/f1''])] 7])
   \<and> optimizeJob userStagerDown
     = (Return (S_ERROR ''Problem sending staging request''),
        [SetStatus ''Staging'' ''Request To Be Sent'', SetRequest [(''T1'', [''/lhcb/f1''])] 7])"
  by code_simp

lemma requestStaging_shape:
  "snd (requestStaging e stageLFNs) =
     [SetStatus (ex_getOption (cfg_StagingStatus e) ''Staging'')
        (ex_getOption (cfg_StagingMinorStatus e) ''Request To Be Sent'')]
   \<or> snd (requestStaging e stageLFNs) =
     [SetStatus (ex_getOption (cfg_StagingStatus e) ''Staging'')
        (ex_getOption (cfg_StagingMinorStatus e) ''Request To Be Sent''),
      SetRequest stageLFNs (jid e)]
   \<or> (\<exists>v. setRequest e stageLFNs (jid e) = Inr v \<and>
        snd (requestStaging e stageLFNs) =
          [SetStatus (ex_getOption (cfg_StagingStatus e) ''Staging'')
             (ex_getOption (cfg_StagingMinorStatus e) ''Request To Be Sent''),
           SetRequest stageLFNs (jid e),
           SetParameter ''StageRequest'' (str_int v),
           SetStatus (ex_getOption (cfg_StagingStatus e) ''Staging'')
             (ex_getOption (cfg_StagingMinorStatus e) ''Request Sent'')])"
  by (simp add: requestStaging_events Let_def split: sum.splits)

lemma requestStaging_parameter_iff:
  "(\<exists>rid. SetParameter ''StageRequest'' rid \<in> set (snd (requestStaging e stageLFNs)))
     = (SetRequest stageLFNs (jid e) \<in> set (snd (requestStaging e stageLFNs))
        \<and> isOK (setRequest e stageLFNs (jid e)))"
  by (auto simp: requestStaging_events Let_def split: sum.splits)

text \<open>
  C8. Whatever the collaborators answer, \<^verbatim>\<open>__requestStaging\<close> makes one of three
  sequences of calls: the first status write alone (it failed); the first status write
  and the request (the stager refused); or the first status write, the request,
  \<^verbatim>\<open>setParameter( "StageRequest", rid )\<close> and the second status write, in this order.
  So the parameter is set exactly when \<^verbatim>\<open>setRequest\<close> was called and succeeded, after
  the write of \<^verbatim>\<open>Request To Be Sent\<close> and before the write of \<^verbatim>\<open>Request Sent\<close>, and
  the second status write never comes before the first. The major status and the two
  minor statuses are the defaults unless the options replace them.
\<close>

theorem C8_parameter_between_status_writes:
  "((\<exists>rid. SetParameter ''StageRequest'' rid \<in> set (snd (requestStaging e stageLFNs)))
      = (SetRequest stageLFNs (jid e) \<in> set (snd (requestStaging e stageLFNs))
         \<and> isOK (setRequest e stageLFNs (jid e))))
   \<and> (snd (requestStaging e stageLFNs) =
         [SetStatus (ex_getOption (cfg_StagingStatus e) ''Staging'')
            (ex_getOption (cfg_StagingMinorStatus e) ''Request To Be Sent'')]
       \<or> snd (requestStaging e stageLFNs) =
         [SetStatus (ex_getOption (cfg_StagingStatus e) ''Staging'')
            (ex_getOption (cfg_StagingMinorStatus e) ''Request To Be Sent''),
          SetRequest stageLFNs (jid e)]
       \<or> (\<exists>v. setRequest e stageLFNs (jid e) = Inr v \<and>
            snd (requestStaging e stageLFNs) =
              [SetStatus (ex_getOption (cfg_StagingStatus e) ''Staging'')
                 (ex_getOption (cfg_StagingMinorStatus e) ''Request To Be Sent''),
               SetRequest stageLFNs (jid e),
               SetParameter ''StageRequest'' (str_int v),
               SetStatus (ex_getOption (cfg_StagingStatus e) ''Staging'')
                 (ex_getOption (cfg_StagingMinorStatus e) ''Request Sent'')]))"
  using requestStaging_shape [of e stageLFNs] requestStaging_parameter_iff [of e stageLFNs]
  by blast

theorem C8_parameter_between_status_writes_witness:
  "snd (requestStaging quiet [(''T1'', [''/lhcb/f1''])]) =
     [SetStatus ''Staging'' ''Request To Be Sent'',
      SetRequest [(''T1'', [''/lhcb/f1''])] 7,
      SetParameter ''StageRequest'' ''42'',
      SetStatus ''Staging'' ''Request Sent'']"
proof -
  have ok: "setRequest quiet [(''T1'', [''/lhcb/f1''])] (jid quiet) = Inr 42"
    by (simp add: quiet_def)
  have s42: "str_int 42 = ''42''"
    by code_simp
  have parameter: "SetParameter ''StageRequest'' ''42''
      \<in> set (snd (requestStaging quiet [(''T1'', [''/lhcb/f1''])]))"
    by code_simp
  show ?thesis
    using C8_parameter_between_status_writes [of quiet "[(''T1'', [''/lhcb/f1''])]"] parameter
    by (auto simp: ok s42 quiet_def ex_getOption_def)
qed

text \<open>
  C9, as the code has it. When the option \<^verbatim>\<open>StagingMinorStatus\<close> is not set, the first
  status write carries the minor status \<^verbatim>\<open>Request To Be Sent\<close> and the second one
  carries \<^verbatim>\<open>Request Sent\<close>: the two calls of \<^verbatim>\<open>ex_getOption\<close> name the same option
  and give different defaults. When the option is set, its value is the minor status
  of both writes.
\<close>

theorem C9_default_minor_statuses:
  "(cfg_StagingMinorStatus e = None \<longrightarrow>
      (\<exists>status.
         snd (requestStaging e stageLFNs) = [SetStatus status ''Request To Be Sent'']
         \<or> snd (requestStaging e stageLFNs) =
              [SetStatus status ''Request To Be Sent'', SetRequest stageLFNs (jid e)]
         \<or> (\<exists>rid. snd (requestStaging e stageLFNs) =
              [SetStatus status ''Request To Be Sent'', SetRequest stageLFNs (jid e),
               SetParameter ''StageRequest'' rid, SetStatus status ''Request Sent''])))
   \<and> (\<forall>minor. cfg_StagingMinorStatus e = Some minor \<longrightarrow>
      (\<exists>status.
         snd (requestStaging e stageLFNs) = [SetStatus status minor]
         \<or> snd (requestStaging e stageLFNs) =
              [SetStatus status minor, SetRequest stageLFNs (jid e)]
         \<or> (\<exists>rid. snd (requestStaging e stageLFNs) =
              [SetStatus status minor, SetRequest stageLFNs (jid e),
               SetParameter ''StageRequest'' rid, SetStatus status minor])))"
  using requestStaging_shape [of e stageLFNs]
  by (auto simp: ex_getOption_def)

theorem C9_default_minor_statuses_witness:
  "cfg_StagingMinorStatus quiet = None
   \<and> (\<exists>status.
         snd (requestStaging quiet [(''T1'', [''/lhcb/f1''])])
           = [SetStatus status ''Request To Be Sent'']
         \<or> snd (requestStaging quiet [(''T1'', [''/lhcb/f1''])])
           = [SetStatus status ''Request To Be Sent'',
              SetRequest [(''T1'', [''/lhcb/f1''])] (jid quiet)]
         \<or> (\<exists>rid. snd (requestStaging quiet [(''T1'', [''/lhcb/f1''])])
           = [SetStatus status ''Request To Be Sent'',
              SetRequest [(''T1'', [''/lhcb/f1''])] (jid quiet),
              SetParameter ''StageRequest'' rid, SetStatus status ''Request Sent'']))"
proof -
  have absent: "cfg_StagingMinorStatus quiet = None"
    by (simp add: quiet_def)
  show ?thesis
    using C9_default_minor_statuses [of quiet "[(''T1'', [''/lhcb/f1''])]"] absent
    by blast
qed

text \<open>
  C9 as the specification states it fails: with no option set and every collaborator
  answering, the second status write carries \<^verbatim>\<open>Request Sent\<close>, not the default of the
  first.
\<close>

theorem C9_same_default_counterexample:
  "cfg_StagingMinorStatus quiet = None
   \<and> snd (requestStaging quiet [(''T1'', [''/lhcb/f1''])]) =
       [SetStatus ''Staging'' ''Request To Be Sent'',
        SetRequest [(''T1'', [''/lhcb/f1''])] 7,
        SetParameter ''StageRequest'' ''42'',
        SetStatus ''Staging'' ''Request Sent'']
   \<and> SetStatus ''Staging'' ''Request To Be Sent''
       \<notin> set (drop 1 (snd (requestStaging quiet [(''T1'', [''/lhcb/f1''])])))"
  by code_simp

subsection \<open>The reschedule delay\<close>

lemma py_index_in_range:
  "0 \<le> i \<Longrightarrow> i < int (length xs) \<Longrightarrow> py_index xs i = Inr (xs ! nat i)"
  by (simp add: py_index_def)

lemma optimizeJob_hold_after_reschedule:
  assumes att: "getAttributes e = Inr a"
    and counter: "RescheduleCounter a = Some counter" "0 < counter"
    and delays: "ex_getOption (cfg_RescheduleDelays e) [60, 180, 300, 600] = delays" "delays \<noteq> []"
    and delay: "delays ! nat (min counter (int (length delays) - 1)) = delay"
    and waited: "now e - RescheduleTime a < delay"
  shows "optimizeJob e = holdJob e (''On Hold: after rescheduling '' @ str_int counter) delay"
proof -
  have "0 \<le> min counter (int (length delays) - 1)"
    using counter(2) delays(2) by (cases delays) auto
  moreover have "min counter (int (length delays) - 1) < int (length delays)"
    by simp
  ultimately have "py_index delays (min counter (int (length delays) - 1)) = Inr delay"
    using delay by (simp add: py_index_in_range)
  then show ?thesis
    using att counter delays(1) waited by (simp add: optimizeJob_def Let_def)
qed

text \<open>
  C4, as the code has it. For a job rescheduled \<open>counter > 0\<close> times whose waiting time
  is below \<open>delay = delays[min(counter, |delays| - 1)]\<close> (\<open>delays\<close> being the option
  \<^verbatim>\<open>RescheduleDelays\<close> or its default, and not empty), \<^verbatim>\<open>optimizeJob\<close> makes two calls
  and returns what the second gives: \<^verbatim>\<open>freezeTask\<close> with the whole \<open>delay\<close>, not
  shortened by the time already waited (with the option \<^verbatim>\<open>HoldTime\<close>, default 300,
  when \<open>delay\<close> is 0), and \<^verbatim>\<open>setAppStatus\<close> with \<^verbatim>\<open>On Hold: after rescheduling\<close> and
  the counter.
\<close>

theorem C4_hold_for_the_whole_delay:
  assumes "getAttributes e = Inr a"
    and "RescheduleCounter a = Some counter" and "0 < counter"
    and "ex_getOption (cfg_RescheduleDelays e) [60, 180, 300, 600] = delays" and "delays \<noteq> []"
    and "delays ! nat (min counter (int (length delays) - 1)) = delay"
    and "now e - RescheduleTime a < delay"
  shows "optimizeJob e =
           (Return (setAppStatus e (''On Hold: after rescheduling '' @ str_int counter)),
            [FreezeTask (if delay \<noteq> 0 then delay else ex_getOption (cfg_HoldTime e) 300),
             SetAppStatus (''On Hold: after rescheduling '' @ str_int counter)])"
  using optimizeJob_hold_after_reschedule [OF assms] by (simp add: holdJob_def)

theorem C4_hold_for_the_whole_delay_witness:
  "optimizeJob rescheduledOnce =
     (Return S_OK, [FreezeTask 180, SetAppStatus ''On Hold: after rescheduling 1''])"
proof -
  have att: "getAttributes rescheduledOnce
      = Inr \<lparr> RescheduleCounter = Some 1, RescheduleTime = 900 \<rparr>"
    by (simp add: rescheduledOnce_def quiet_def)
  have delays: "ex_getOption (cfg_RescheduleDelays rescheduledOnce) [60, 180, 300, 600]
      = [60, 180, 300, 600]"
    by (simp add: rescheduledOnce_def quiet_def ex_getOption_def)
  have waited: "now rescheduledOnce
      - RescheduleTime \<lparr> RescheduleCounter = Some 1, RescheduleTime = 900 \<rparr> < 180"
    by (simp add: rescheduledOnce_def quiet_def)
  have s1: "str_int 1 = ''1''"
    by code_simp
  have reply: "setAppStatus rescheduledOnce ''On Hold: after rescheduling 1'' = S_OK"
    by (simp add: rescheduledOnce_def quiet_def)
  show ?thesis
    using C4_hold_for_the_whole_delay
      [of rescheduledOnce "\<lparr> RescheduleCounter = Some 1, RescheduleTime = 900 \<rparr>" 1
          "[60, 180, 300, 600]" 180, OF att _ _ delays _ _ waited]
    by (simp add: s1 reply)
qed

text \<open>
  C4 as the specification states it fails: a job rescheduled once has waited 100 of the
  180 seconds; the task is frozen for 180 seconds, not for the 80 that remain.
\<close>

theorem C4_remaining_delay_counterexample:
  "now rescheduledOnce - 900 = 100
   \<and> optimizeJob rescheduledOnce =
       (Return S_OK, [FreezeTask 180, SetAppStatus ''On Hold: after rescheduling 1''])
   \<and> FreezeTask (180 - 100) \<notin> set (snd (optimizeJob rescheduledOnce))"
  by code_simp

subsection \<open>Replica records\<close>

lemma stagedAsDone_inv: "record_inv n r \<Longrightarrow> record_inv n (stagedAsDone r)"
  by (simp add: record_inv_def stagedAsDone_def)

lemma toDisk_sum: "disk (toDisk r) + tape (toDisk r) = disk r + tape r"
  by (simp add: toDisk_def)

lemma toDisk_inv_iff: "record_inv n r \<Longrightarrow> record_inv n (toDisk r) = (0 < tape r)"
  by (auto simp: record_inv_def toDisk_def)

text \<open>
  What the loops of \<^verbatim>\<open>__updateSharedSESites\<close> do to one record: some number \<open>k\<close> of
  files goes from tape to disk.
\<close>

lemma promoteLFNs_moves:
  "\<exists>k. promoteLFNs lfnData diskSEs lfns r = r\<lparr>disk := disk r + int k, tape := tape r - int k\<rparr>"
proof (induction lfns arbitrary: r)
  case Nil
  have "r = r\<lparr>disk := disk r + int 0, tape := tape r - int 0\<rparr>" by simp
  then show ?case by (metis promoteLFNs.simps(1))
next
  case (Cons l lfns)
  show ?case
  proof (cases "promoteLFNs lfnData diskSEs (l # lfns) r = promoteLFNs lfnData diskSEs lfns r")
    case True
    then show ?thesis using Cons.IH [of r] by simp
  next
    case False
    then have step: "promoteLFNs lfnData diskSEs (l # lfns) r
        = promoteLFNs lfnData diskSEs lfns (toDisk r)"
      by (simp add: Let_def split: option.splits if_splits)
    obtain k where "promoteLFNs lfnData diskSEs lfns (toDisk r)
        = (toDisk r)\<lparr>disk := disk (toDisk r) + int k, tape := tape (toDisk r) - int k\<rparr>"
      using Cons.IH [of "toDisk r"] by blast
    then have "promoteLFNs lfnData diskSEs (l # lfns) r
        = r\<lparr>disk := disk r + int (Suc k), tape := tape r - int (Suc k)\<rparr>"
      using step by (simp add: toDisk_def)
    then show ?thesis by blast
  qed
qed

lemma promoteSEs_moves:
  "\<exists>k. promoteSEs lfnData closeSEs diskSEs stagedLFNs r
         = r\<lparr>disk := disk r + int k, tape := tape r - int k\<rparr>"
proof (induction stagedLFNs arbitrary: r)
  case Nil
  have "r = r\<lparr>disk := disk r + int 0, tape := tape r - int 0\<rparr>" by simp
  then show ?case by (metis promoteSEs.simps(1))
next
  case (Cons a stagedLFNs)
  obtain seName lfns where a: "a = (seName, lfns)" by (cases a)
  show ?case
  proof (cases "seName \<in> set closeSEs")
    case False
    then show ?thesis using Cons.IH [of r] a by simp
  next
    case True
    obtain j where j: "promoteLFNs lfnData diskSEs lfns r
        = r\<lparr>disk := disk r + int j, tape := tape r - int j\<rparr>"
      using promoteLFNs_moves by blast
    obtain k where "promoteSEs lfnData closeSEs diskSEs stagedLFNs
          (r\<lparr>disk := disk r + int j, tape := tape r - int j\<rparr>)
        = r\<lparr>disk := disk r + int j + int k, tape := tape r - int j - int k\<rparr>"
      using Cons.IH [of "r\<lparr>disk := disk r + int j, tape := tape r - int j\<rparr>"] by auto
    then have "promoteSEs lfnData closeSEs diskSEs (a # stagedLFNs) r
        = r\<lparr>disk := disk r + int (j + k), tape := tape r - int (j + k)\<rparr>"
      using True a j by (simp add: algebra_simps)
    then show ?thesis by blast
  qed
qed

text \<open>
  C5, as the code has it. The rewrite of the record of the stage site
  (\<^verbatim>\<open>disk += tape; tape = 0\<close>) keeps the invariant. The update of a sibling site for one
  staged file (\<^verbatim>\<open>disk += 1; tape -= 1\<close>) keeps \<open>disk \<ge> 0\<close> and the sum \<open>disk + tape\<close>,
  hence \<open>disk + tape \<le> n\<close>; it keeps \<open>tape \<ge> 0\<close>, and so the invariant, exactly when the
  record had a tape replica left. Over all staged files \<^verbatim>\<open>__updateSharedSESites\<close> moves
  some number \<open>k\<close> of files of a sibling's record from tape to disk, and the invariant
  is kept exactly when \<open>k\<close> is at most the tape count. The code does not look at
  \<open>tape\<close> before it counts down.
\<close>

theorem C5_record_updates:
  assumes "record_inv n r"
  shows "record_inv n (stagedAsDone r)
         \<and> 0 \<le> disk (toDisk r)
         \<and> disk (toDisk r) + tape (toDisk r) = disk r + tape r
         \<and> record_inv n (toDisk r) = (0 < tape r)
         \<and> (\<exists>k. promoteSEs lfnData closeSEs diskSEs stagedLFNs r
                   = r\<lparr>disk := disk r + int k, tape := tape r - int k\<rparr>
                 \<and> record_inv n (promoteSEs lfnData closeSEs diskSEs stagedLFNs r)
                   = (int k \<le> tape r))"
proof -
  obtain k where k: "promoteSEs lfnData closeSEs diskSEs stagedLFNs r
      = r\<lparr>disk := disk r + int k, tape := tape r - int k\<rparr>"
    using promoteSEs_moves by blast
  have "record_inv n (r\<lparr>disk := disk r + int k, tape := tape r - int k\<rparr>) = (int k \<le> tape r)"
    using assms by (auto simp: record_inv_def)
  then have whole: "\<exists>k. promoteSEs lfnData closeSEs diskSEs stagedLFNs r
                   = r\<lparr>disk := disk r + int k, tape := tape r - int k\<rparr>
                 \<and> record_inv n (promoteSEs lfnData closeSEs diskSEs stagedLFNs r)
                   = (int k \<le> tape r)"
    using k by auto
  show ?thesis
    using assms stagedAsDone_inv [of n r] toDisk_inv_iff [of n r] whole
    by (simp add: toDisk_def record_inv_def)
qed

theorem C5_record_updates_witness:
  "record_inv 3 \<lparr> disk = 1, tape = 2 \<rparr>
   \<and> record_inv 3 (stagedAsDone \<lparr> disk = 1, tape = 2 \<rparr>)
   \<and> record_inv 3 (toDisk \<lparr> disk = 1, tape = 2 \<rparr>)"
proof -
  have inv: "record_inv 3 \<lparr> disk = 1, tape = 2 \<rparr>"
    by (simp add: record_inv_def)
  show ?thesis
    using C5_record_updates [OF inv, of "[]" "[]" "[]" "[]"] inv by simp
qed

text \<open>
  C5 as the specification states it fails. A sibling site has the one input file on
  disk (its record is \<open>disk = 1, tape = 0\<close>, within the invariant), on an SE that gives
  no status now; the file is staged from a tape SE close to both sites. The update
  leaves the sibling with \<open>disk = 2, tape = -1\<close>.
\<close>

theorem C5_negative_tape_counterexample:
  "record_inv 1 \<lparr> disk = 1, tape = 0 \<rparr>
   \<and> updateSharedSESites sharedTape ''LCG.CERN.ch'' [(''T1'', [''/lhcb/f1''])] sharedTapeData
       = Inr (sharedTapeData\<lparr> SiteCandidates :=
                Some [(''LCG.CERN.ch'', \<lparr> disk = 1, tape = 0 \<rparr>),
                      (''LCG.NIKHEF.nl'', \<lparr> disk = 2, tape = - 1 \<rparr>)] \<rparr>)
   \<and> \<not> record_inv 1 \<lparr> disk = 2, tape = - 1 \<rparr>"
  by code_simp

subsection \<open>The staging resolver\<close>

lemma mset_shuffle_from:
  "i < length xs \<Longrightarrow> mset (shuffle_from i rs xs) = mset xs"
proof (induction i arbitrary: rs xs)
  case 0
  then show ?case by simp
next
  case (Suc i)
  define j where "j = (case rs of [] \<Rightarrow> 0 | r # rs' \<Rightarrow> r mod (Suc i + 1))"
  have j: "j < length xs"
    using Suc.prems by (auto simp: j_def split: list.splits intro: less_le_trans [OF mod_less_divisor])
  have swap: "mset (xs[Suc i := xs ! j, j := xs ! Suc i]) = mset xs"
    using mset_swap [of j xs "Suc i"] j Suc.prems by simp
  have "shuffle_from (Suc i) rs xs = shuffle_from i (tl rs) (xs[Suc i := xs ! j, j := xs ! Suc i])"
    by (simp add: j_def Let_def)
  moreover have "mset (shuffle_from i (tl rs) (xs[Suc i := xs ! j, j := xs ! Suc i]))
      = mset (xs[Suc i := xs ! j, j := xs ! Suc i])"
    using Suc.prems by (intro Suc.IH) simp
  ultimately show ?case using swap by simp
qed

lemma mset_shuffle: "mset (shuffle rs xs) = mset xs"
proof (cases xs)
  case Nil
  then show ?thesis by (simp add: shuffle_def)
next
  case (Cons x xs')
  then show ?thesis by (simp add: shuffle_def mset_shuffle_from)
qed

lemma resolveLoop_diskSites:
  "0 < n \<Longrightarrow> fst (resolveLoop n xs ds m bs)
     = ds @ map fst (filter (\<lambda>sr. disk (snd sr) = int n) xs)"
  by (induction n xs ds m bs rule: resolveLoop.induct) (auto simp: Let_def)

lemma maxDiskSites_Cons_max:
  assumes "list_all (\<lambda>sr'. disk (snd sr') \<le> disk r) rest"
  shows "maxDiskSites ((s, r) # rest) = s # map fst (filter (\<lambda>sr. disk (snd sr) = disk r) rest)"
proof -
  have "filter (\<lambda>sr. disk r \<le> disk (snd sr)
                       \<and> list_all (\<lambda>sr'. disk (snd sr') \<le> disk (snd sr)) rest) rest
        = filter (\<lambda>sr. disk (snd sr) = disk r) rest"
    using assms by (intro filter_cong) (auto simp: list_all_iff)
  then show ?thesis
    using assms by (simp add: maxDiskSites_def)
qed

lemma maxDiskSites_Cons_not_max:
  assumes "\<not> list_all (\<lambda>sr'. disk (snd sr') \<le> d) rest" and "disk r \<le> d"
  shows "maxDiskSites ((s, r) # rest) = maxDiskSites rest"
proof -
  obtain sr0 where sr0: "sr0 \<in> set rest" "d < disk (snd sr0)"
    using assms(1) by (auto simp: list_all_iff)
  have head: "\<not> list_all (\<lambda>sr'. disk (snd sr') \<le> disk r) rest"
    using sr0 assms(2) by (force simp: list_all_iff)
  have "filter (\<lambda>sr. disk r \<le> disk (snd sr)
                       \<and> list_all (\<lambda>sr'. disk (snd sr') \<le> disk (snd sr)) rest) rest
        = filter (\<lambda>sr. list_all (\<lambda>sr'. disk (snd sr') \<le> disk (snd sr)) rest) rest"
  proof (intro filter_cong refl)
    fix sr assume "sr \<in> set rest"
    show "(disk r \<le> disk (snd sr)
            \<and> list_all (\<lambda>sr'. disk (snd sr') \<le> disk (snd sr)) rest)
          = list_all (\<lambda>sr'. disk (snd sr') \<le> disk (snd sr)) rest"
      using sr0 assms(2) by (fastforce simp: list_all_iff)
  qed
  then show ?thesis
    using head by (simp add: maxDiskSites_def)
qed

lemma resolveLoop_bestSites:
  "snd (snd (resolveLoop n xs ds m bs))
     = (if list_all (\<lambda>sr. disk (snd sr) \<le> m) xs
        then bs @ map fst (filter (\<lambda>sr. disk (snd sr) = m) xs)
        else maxDiskSites xs)"
proof (induction n xs ds m bs rule: resolveLoop.induct)
  case (1 n ds m bs)
  then show ?case by simp
next
  case (2 n s r rest ds m bs)
  define ds' where "ds' = (if disk r > 0 \<and> disk r = int n then ds @ [s] else ds)"
  consider (more) "m < disk r" | (same) "disk r = m" | (less) "disk r < m"
    by linarith
  then show ?case
  proof cases
    case more
    have call: "resolveLoop n ((s, r) # rest) ds m bs = resolveLoop n rest ds' (disk r) [s]"
      using more by (simp add: Let_def ds'_def)
    have ih: "snd (snd (resolveLoop n rest ds' (disk r) [s]))
        = (if list_all (\<lambda>sr. disk (snd sr) \<le> disk r) rest
           then [s] @ map fst (filter (\<lambda>sr. disk (snd sr) = disk r) rest)
           else maxDiskSites rest)"
      using more "2.IH"(1) [of "disk r" ds'] by (simp add: ds'_def)
    show ?thesis
    proof (cases "list_all (\<lambda>sr. disk (snd sr) \<le> disk r) rest")
      case True
      then show ?thesis
        using more call ih maxDiskSites_Cons_max [of r rest s] by simp
    next
      case False
      then show ?thesis
        using more call ih maxDiskSites_Cons_not_max [of "disk r" rest r s] by simp
    qed
  next
    case same
    have call: "resolveLoop n ((s, r) # rest) ds m bs = resolveLoop n rest ds' m (bs @ [s])"
      using same by (simp add: Let_def ds'_def)
    have ih: "snd (snd (resolveLoop n rest ds' m (bs @ [s])))
        = (if list_all (\<lambda>sr. disk (snd sr) \<le> m) rest
           then (bs @ [s]) @ map fst (filter (\<lambda>sr. disk (snd sr) = m) rest)
           else maxDiskSites rest)"
      using same "2.IH"(2) [of "disk r" ds'] by (simp add: ds'_def)
    show ?thesis
    proof (cases "list_all (\<lambda>sr. disk (snd sr) \<le> m) rest")
      case True
      then show ?thesis using same call ih by simp
    next
      case False
      then show ?thesis
        using same call ih maxDiskSites_Cons_not_max [of m rest r s] by simp
    qed
  next
    case less
    have call: "resolveLoop n ((s, r) # rest) ds m bs = resolveLoop n rest ds' m bs"
      using less by (simp add: Let_def ds'_def)
    have ih: "snd (snd (resolveLoop n rest ds' m bs))
        = (if list_all (\<lambda>sr. disk (snd sr) \<le> m) rest
           then bs @ map fst (filter (\<lambda>sr. disk (snd sr) = m) rest)
           else maxDiskSites rest)"
      using less "2.IH"(3) [of "disk r" ds'] by (simp add: ds'_def)
    show ?thesis
    proof (cases "list_all (\<lambda>sr. disk (snd sr) \<le> m) rest")
      case True
      then show ?thesis using less call ih by simp
    next
      case False
      then show ?thesis
        using less call ih maxDiskSites_Cons_not_max [of m rest r s] by simp
    qed
  qed
qed

lemma maxDiskSites_all_zero:
  assumes "list_all (\<lambda>sr. 0 \<le> disk (snd sr)) xs" and "list_all (\<lambda>sr. disk (snd sr) \<le> 0) xs"
  shows "map fst (filter (\<lambda>sr. disk (snd sr) = 0) xs) = maxDiskSites xs"
proof -
  have zero: "\<forall>sr\<in>set xs. disk (snd sr) = 0"
    using assms by (fastforce simp: list_all_iff)
  then have "filter (\<lambda>sr. disk (snd sr) = 0) xs
      = filter (\<lambda>sr. list_all (\<lambda>sr'. disk (snd sr') \<le> disk (snd sr)) xs) xs"
    by (intro filter_cong) (auto simp: list_all_iff)
  then show ?thesis by (simp add: maxDiskSites_def)
qed

lemma resolveStaging_eq:
  assumes "inputData \<noteq> []" and "list_all (\<lambda>sr. 0 \<le> disk (snd sr)) idSites"
  shows "resolveStaging e inputData idSites =
           (if diskSitesOf inputData idSites \<noteq> [] then (False, diskSitesOf inputData idSites)
            else (True, if 1 < length (maxDiskSites idSites)
                        then shuffle (random e) (maxDiskSites idSites)
                        else maxDiskSites idSites))"
proof -
  obtain ds m bs where loop: "resolveLoop (length inputData) idSites [] 0 [] = (ds, m, bs)"
    by (cases "resolveLoop (length inputData) idSites [] 0 []") auto
  have ds: "ds = diskSitesOf inputData idSites"
    using resolveLoop_diskSites [of "length inputData" idSites "[]" 0 "[]"] assms(1) loop
    by (simp add: diskSitesOf_def)
  have bs: "bs = maxDiskSites idSites"
    using resolveLoop_bestSites [of "length inputData" idSites "[]" 0 "[]"] loop
      maxDiskSites_all_zero [OF assms(2)]
    by (simp split: if_splits)
  show ?thesis
    by (simp add: resolveStaging_def loop ds bs)
qed

lemma set_diskSitesOf:
  "set (diskSitesOf inputData idSites)
     = {s. \<exists>r. (s, r) \<in> set idSites \<and> disk r = int (length inputData)}"
  by (force simp: diskSitesOf_def)

lemma set_maxDiskSites:
  "set (maxDiskSites idSites)
     = {s. \<exists>r. (s, r) \<in> set idSites \<and> (\<forall>sr'\<in>set idSites. disk (snd sr') \<le> disk r)}"
  by (force simp: maxDiskSites_def list_all_iff)

lemma distinct_maxDiskSites:
  "distinct (map fst idSites) \<Longrightarrow> distinct (maxDiskSites idSites)"
  by (simp add: maxDiskSites_def distinct_map_filter)

text \<open>
  C7. For input data that is not empty and records whose disk counts are not negative,
  \<^verbatim>\<open>__resolveStaging\<close> returns \<^verbatim>\<open>( False, diskSites )\<close> when some site has every file on
  disk, \<open>diskSites\<close> being those sites. Otherwise it returns \<^verbatim>\<open>True\<close> with the sites whose
  disk count no site exceeds: a permutation of them (the same sites, each as often, so
  each once when the keys of \<^verbatim>\<open>idSites\<close> are distinct), made by \<^verbatim>\<open>random.shuffle\<close> when
  they are more than one, and the list as it is when they are not.
\<close>

theorem C7_resolveStaging:
  assumes "inputData \<noteq> []" and "list_all (\<lambda>sr. 0 \<le> disk (snd sr)) idSites"
  shows "(diskSitesOf inputData idSites \<noteq> [] \<longrightarrow>
            resolveStaging e inputData idSites = (False, diskSitesOf inputData idSites))
         \<and> (diskSitesOf inputData idSites = [] \<longrightarrow>
            (\<exists>bs. resolveStaging e inputData idSites = (True, bs)
                  \<and> mset bs = mset (maxDiskSites idSites)
                  \<and> set bs = {s. \<exists>r. (s, r) \<in> set idSites
                                   \<and> (\<forall>sr'\<in>set idSites. disk (snd sr') \<le> disk r)}
                  \<and> (distinct (map fst idSites) \<longrightarrow> distinct bs)
                  \<and> bs = (if 1 < length (maxDiskSites idSites)
                          then shuffle (random e) (maxDiskSites idSites)
                          else maxDiskSites idSites)))"
proof -
  let ?bs = "if 1 < length (maxDiskSites idSites)
             then shuffle (random e) (maxDiskSites idSites) else maxDiskSites idSites"
  have perm: "mset ?bs = mset (maxDiskSites idSites)"
    by (simp add: mset_shuffle)
  have "set ?bs = set (maxDiskSites idSites)"
    using perm by (rule mset_eq_setD)
  then have sites: "set ?bs = {s. \<exists>r. (s, r) \<in> set idSites
      \<and> (\<forall>sr'\<in>set idSites. disk (snd sr') \<le> disk r)}"
    by (simp only: set_maxDiskSites)
  have once: "distinct (map fst idSites) \<longrightarrow> distinct ?bs"
    using perm distinct_maxDiskSites [of idSites] mset_eq_imp_distinct_iff by blast
  show ?thesis
    using resolveStaging_eq [OF assms, of e] perm sites once by simp
qed

theorem C7_resolveStaging_witness:
  "resolveStaging quiet [''/lhcb/f1'', ''/lhcb/f2'']
     [(''LCG.CERN.ch'', \<lparr> disk = 2, tape = 0 \<rparr>), (''LCG.CNAF.it'', \<lparr> disk = 1, tape = 1 \<rparr>)]
     = (False, [''LCG.CERN.ch''])
   \<and> (\<exists>bs. resolveStaging quiet [''/lhcb/f1'', ''/lhcb/f2'']
          [(''LCG.CERN.ch'', \<lparr> disk = 1, tape = 1 \<rparr>), (''LCG.CNAF.it'', \<lparr> disk = 1, tape = 1 \<rparr>),
           (''LCG.Pisa.it'', \<lparr> disk = 0, tape = 2 \<rparr>)] = (True, bs)
        \<and> mset bs = mset [''LCG.CERN.ch'', ''LCG.CNAF.it''])"
proof -
  let ?files = "[''/lhcb/f1'', ''/lhcb/f2'']"
  let ?onDisk = "[(''LCG.CERN.ch'', \<lparr> disk = 2, tape = 0 \<rparr>),
                  (''LCG.CNAF.it'', \<lparr> disk = 1, tape = 1 \<rparr>)]"
  let ?onTape = "[(''LCG.CERN.ch'', \<lparr> disk = 1, tape = 1 \<rparr>),
                  (''LCG.CNAF.it'', \<lparr> disk = 1, tape = 1 \<rparr>),
                  (''LCG.Pisa.it'', \<lparr> disk = 0, tape = 2 \<rparr>)]"
  have files: "?files \<noteq> []" by simp
  have nonneg1: "list_all (\<lambda>sr. 0 \<le> disk (snd sr)) ?onDisk" by simp
  have nonneg2: "list_all (\<lambda>sr. 0 \<le> disk (snd sr)) ?onTape" by simp
  have d1: "diskSitesOf ?files ?onDisk = [''LCG.CERN.ch'']"
    by (simp add: diskSitesOf_def)
  have d2: "diskSitesOf ?files ?onTape = []"
    by (simp add: diskSitesOf_def)
  have m2: "maxDiskSites ?onTape = [''LCG.CERN.ch'', ''LCG.CNAF.it'']"
    by (simp add: maxDiskSites_def)
  have first: "resolveStaging quiet ?files ?onDisk = (False, [''LCG.CERN.ch''])"
    using C7_resolveStaging [OF files nonneg1, of quiet] by (simp add: d1)
  have second: "\<exists>bs. resolveStaging quiet ?files ?onTape = (True, bs)
      \<and> mset bs = mset [''LCG.CERN.ch'', ''LCG.CNAF.it'']"
    using C7_resolveStaging [OF files nonneg2, of quiet] by (simp add: d2 m2)
  show ?thesis
    using first second by blast
qed

subsection \<open>The site attribute\<close>

lemma split_dot_not_Nil: "split_dot s \<noteq> []"
  by (induction s) (auto split: list.splits)

lemma join_push_char: "join sep ((c # p) # ps) = c # join sep (p # ps)"
  by (cases ps) simp_all

lemma join_split_dot: "join ''.'' (split_dot s) = s"
proof (induction s)
  case Nil
  then show ?case by simp
next
  case (Cons c cs)
  obtain p ps where split: "split_dot cs = p # ps"
    using split_dot_not_Nil [of cs] by (cases "split_dot cs") auto
  show ?case
  proof (cases "c = CHR ''.''")
    case True
    then show ?thesis
      using Cons.IH split by simp
  next
    case False
    then show ?thesis
      using Cons.IH split by (simp add: join_push_char)
  qed
qed

lemma tl_split_dot:
  "tl (split_dot s)
     = (case dropWhile (\<lambda>c. c \<noteq> CHR ''.'') s of [] \<Rightarrow> [] | c # cs \<Rightarrow> split_dot cs)"
proof (induction s)
  case Nil
  then show ?case by simp
next
  case (Cons c cs)
  obtain p ps where split: "split_dot cs = p # ps"
    using split_dot_not_Nil [of cs] by (cases "split_dot cs") auto
  show ?case
    using Cons.IH split by simp
qed

lemma join_tl_split_dot: "join ''.'' (tl (split_dot s)) = dropToken s"
proof (cases "dropWhile (\<lambda>c. c \<noteq> CHR ''.'') s")
  case Nil
  show ?thesis unfolding tl_split_dot dropToken_def Nil by simp
next
  case (Cons c cs)
  show ?thesis unfolding tl_split_dot dropToken_def Cons by (simp add: join_split_dot)
qed

lemma tierLoop_Cons:
  "tierLoop e (s # rest) tierLevel tierSite =
     (case tierOf e s of
        None \<Rightarrow> tierLoop e rest tierLevel tierSite
      | Some t \<Rightarrow>
          if tierLevel = - 1 \<or> t < tierLevel then tierLoop e rest t [s]
          else if tierLevel = t then tierLoop e rest tierLevel (tierSite @ [s])
          else tierLoop e rest tierLevel tierSite)"
  by (simp add: tierOf_def Let_def split: sum.splits)

lemma minTierSites_Cons:
  "minTierSites e (s # rest) =
     (case tierOf e s of
        None \<Rightarrow> minTierSites e rest
      | Some t \<Rightarrow>
          (if no_tier_below e t rest then [s] else [])
          @ filter (\<lambda>x. case tierOf e x of
                           None \<Rightarrow> False
                         | Some tx \<Rightarrow> tx \<le> t \<and> no_tier_below e tx rest) rest)"
proof (cases "tierOf e s")
  case None
  have "filter (\<lambda>x. case tierOf e x of
                       None \<Rightarrow> False
                     | Some tx \<Rightarrow> no_tier_below e tx (s # rest)) rest
        = filter (\<lambda>x. case tierOf e x of
                       None \<Rightarrow> False
                     | Some tx \<Rightarrow> no_tier_below e tx rest) rest"
    by (intro filter_cong refl) (simp add: None split: option.splits)
  then show ?thesis
    using None by (simp add: minTierSites_def)
next
  case (Some t)
  have "filter (\<lambda>x. case tierOf e x of
                       None \<Rightarrow> False
                     | Some tx \<Rightarrow> no_tier_below e tx (s # rest)) rest
        = filter (\<lambda>x. case tierOf e x of
                       None \<Rightarrow> False
                     | Some tx \<Rightarrow> tx \<le> t \<and> no_tier_below e tx rest) rest"
    by (intro filter_cong refl) (simp add: Some split: option.splits)
  then show ?thesis
    using Some by (simp add: minTierSites_def)
qed

lemma minTierSites_Cons_None:
  "tierOf e s = None \<Longrightarrow> minTierSites e (s # rest) = minTierSites e rest"
  by (simp add: minTierSites_Cons)

lemma minTierSites_Cons_min:
  assumes "tierOf e s = Some t" and "no_tier_below e t rest"
  shows "minTierSites e (s # rest) = s # filter (\<lambda>s'. tierOf e s' = Some t) rest"
proof -
  have "filter (\<lambda>x. case tierOf e x of
                       None \<Rightarrow> False
                     | Some tx \<Rightarrow> tx \<le> t \<and> no_tier_below e tx rest) rest
        = filter (\<lambda>s'. tierOf e s' = Some t) rest"
  proof (intro filter_cong refl)
    fix x assume x: "x \<in> set rest"
    show "(case tierOf e x of None \<Rightarrow> False | Some tx \<Rightarrow> tx \<le> t \<and> no_tier_below e tx rest)
          = (tierOf e x = Some t)"
    proof (cases "tierOf e x")
      case None
      then show ?thesis by simp
    next
      case (Some tx)
      have "t \<le> tx"
        using assms(2) x Some by (auto simp: list_all_iff split: option.splits)
      then show ?thesis
        using Some assms(2) by auto
    qed
  qed
  then show ?thesis
    using assms by (simp add: minTierSites_Cons)
qed

lemma minTierSites_Cons_not_min:
  assumes "tierOf e s = Some t" and "\<not> no_tier_below e d rest" and "d \<le> t"
  shows "minTierSites e (s # rest) = minTierSites e rest"
proof -
  obtain s0 t0 where s0: "s0 \<in> set rest" "tierOf e s0 = Some t0" "t0 < d"
    using assms(2) by (fastforce simp: list_all_iff split: option.splits)
  have head: "\<not> no_tier_below e t rest"
    using s0 assms(3) by (force simp: list_all_iff)
  have "filter (\<lambda>x. case tierOf e x of
                       None \<Rightarrow> False
                     | Some tx \<Rightarrow> tx \<le> t \<and> no_tier_below e tx rest) rest
        = filter (\<lambda>x. case tierOf e x of
                       None \<Rightarrow> False
                     | Some tx \<Rightarrow> no_tier_below e tx rest) rest"
  proof (intro filter_cong refl)
    fix x assume x: "x \<in> set rest"
    show "(case tierOf e x of None \<Rightarrow> False | Some tx \<Rightarrow> tx \<le> t \<and> no_tier_below e tx rest)
          = (case tierOf e x of None \<Rightarrow> False | Some tx \<Rightarrow> no_tier_below e tx rest)"
    proof (cases "tierOf e x")
      case None
      then show ?thesis by simp
    next
      case (Some tx)
      have "no_tier_below e tx rest \<Longrightarrow> tx \<le> t"
        using s0 assms(3) by (force simp: list_all_iff)
      then show ?thesis
        using Some by auto
    qed
  qed
  moreover have "minTierSites e rest
      = filter (\<lambda>x. case tierOf e x of
                       None \<Rightarrow> False
                     | Some tx \<Rightarrow> no_tier_below e tx rest) rest"
    by (simp add: minTierSites_def)
  ultimately show ?thesis
    using assms(1) head by (simp add: minTierSites_Cons)
qed

text \<open>
  The loop when a tier has been seen: \<^verbatim>\<open>tierLevel\<close> is not the starting value \<open>-1\<close>, and
  no site to come has the tier \<open>-1\<close>.
\<close>

lemma tierLoop_started:
  assumes "tierLevel \<noteq> - 1" and "list_all (\<lambda>s. tierOf e s \<noteq> Some (- 1)) siteList"
  shows "tierLoop e siteList tierLevel tierSite
           = (if no_tier_below e tierLevel siteList
              then tierSite @ filter (\<lambda>s. tierOf e s = Some tierLevel) siteList
              else minTierSites e siteList)"
  using assms
proof (induction siteList arbitrary: tierLevel tierSite)
  case Nil
  then show ?case by simp
next
  case (Cons s rest)
  have rest: "list_all (\<lambda>s. tierOf e s \<noteq> Some (- 1)) rest"
    using Cons.prems(2) by simp
  show ?case
  proof (cases "tierOf e s")
    case None
    then show ?thesis
      using Cons.IH [OF Cons.prems(1) rest, of tierSite]
      by (simp del: tierLoop.simps add: tierLoop_Cons minTierSites_Cons_None)
  next
    case (Some t)
    have t: "t \<noteq> - 1"
      using Cons.prems(2) Some by auto
    consider (lower) "t < tierLevel" | (same) "tierLevel = t" | (higher) "tierLevel < t"
      by linarith
    then show ?thesis
    proof cases
      case lower
      have call: "tierLoop e (s # rest) tierLevel tierSite = tierLoop e rest t [s]"
        using Some lower by (simp del: tierLoop.simps add: tierLoop_Cons)
      show ?thesis
      proof (cases "no_tier_below e t rest")
        case True
        then show ?thesis
          using call Cons.IH [OF t rest, of "[s]"] Some lower
            minTierSites_Cons_min [OF Some True]
          by simp
      next
        case False
        then show ?thesis
          using call Cons.IH [OF t rest, of "[s]"] Some lower
            minTierSites_Cons_not_min [OF Some False]
          by simp
      qed
    next
      case same
      have call: "tierLoop e (s # rest) tierLevel tierSite
          = tierLoop e rest tierLevel (tierSite @ [s])"
        using Some same Cons.prems(1) by (simp del: tierLoop.simps add: tierLoop_Cons)
      show ?thesis
      proof (cases "no_tier_below e tierLevel rest")
        case True
        then show ?thesis
          using call Cons.IH [OF Cons.prems(1) rest, of "tierSite @ [s]"] Some same by simp
      next
        case False
        then show ?thesis
          using call Cons.IH [OF Cons.prems(1) rest, of "tierSite @ [s]"] Some same
            minTierSites_Cons_not_min [OF Some False]
          by simp
      qed
    next
      case higher
      have call: "tierLoop e (s # rest) tierLevel tierSite = tierLoop e rest tierLevel tierSite"
        using Some higher Cons.prems(1) by (simp del: tierLoop.simps add: tierLoop_Cons)
      show ?thesis
      proof (cases "no_tier_below e tierLevel rest")
        case True
        then show ?thesis
          using call Cons.IH [OF Cons.prems(1) rest, of tierSite] Some higher by simp
      next
        case False
        then show ?thesis
          using call Cons.IH [OF Cons.prems(1) rest, of tierSite] Some higher
            minTierSites_Cons_not_min [OF Some False]
          by simp
      qed
    qed
  qed
qed

lemma tierLoop_minTierSites:
  assumes "list_all (\<lambda>s. tierOf e s \<noteq> Some (- 1)) siteList"
  shows "tierLoop e siteList (- 1) [] = minTierSites e siteList"
  using assms
proof (induction siteList)
  case Nil
  then show ?case by (simp add: minTierSites_def)
next
  case (Cons s rest)
  have rest: "list_all (\<lambda>s. tierOf e s \<noteq> Some (- 1)) rest"
    using Cons.prems by simp
  show ?case
  proof (cases "tierOf e s")
    case None
    then show ?thesis
      using Cons.IH [OF rest] by (simp del: tierLoop.simps add: tierLoop_Cons minTierSites_Cons_None)
  next
    case (Some t)
    have t: "t \<noteq> - 1"
      using Cons.prems Some by auto
    have call: "tierLoop e (s # rest) (- 1) [] = tierLoop e rest t [s]"
      using Some by (simp del: tierLoop.simps add: tierLoop_Cons)
    show ?thesis
    proof (cases "no_tier_below e t rest")
      case True
      then show ?thesis
        using call tierLoop_started [OF t rest, of "[s]"] minTierSites_Cons_min [OF Some True]
        by simp
    next
      case False
      then show ?thesis
        using call tierLoop_started [OF t rest, of "[s]"]
          minTierSites_Cons_not_min [OF Some False]
        by simp
    qed
  qed
qed

lemma tiers_not_minus_one:
  assumes "list_all (\<lambda>s. case getSiteTier e s of Inl msg \<Rightarrow> True | Inr t \<Rightarrow> 0 \<le> t) siteList"
  shows "list_all (\<lambda>s. tierOf e s \<noteq> Some (- 1)) siteList"
  using assms by (auto simp: list_all_iff tierOf_def split: sum.splits)

lemma distinct_minTierSites: "distinct siteList \<Longrightarrow> distinct (minTierSites e siteList)"
  by (simp add: minTierSites_def)

lemma set_minTierSites:
  "set (minTierSites e siteList)
     = {s \<in> set siteList. \<exists>t. tierOf e s = Some t
          \<and> (\<forall>s'\<in>set siteList. \<forall>t'. tierOf e s' = Some t' \<longrightarrow> t \<le> t')}"
  by (auto simp: minTierSites_def list_all_iff split: option.splits)

lemma distinct_singleton_iff:
  "distinct xs \<Longrightarrow> (set xs = {x}) = (xs = [x])"
proof
  assume d: "distinct xs" and s: "set xs = {x}"
  then have "card (set xs) = 1" by simp
  then have "length xs = 1" using d by (simp add: distinct_card)
  then obtain y where "xs = [y]" by (cases xs) auto
  then show "xs = [x]" using s by simp
qed simp

text \<open>
  C10. \<^verbatim>\<open>__setJobSite\<close> makes one call, \<^verbatim>\<open>jobState.setAttribute( "Site", v )\<close>, and returns
  what it gives. For a list of distinct sites whose tiers, where they can be had, are
  not negative: \<open>v\<close> is \<^verbatim>\<open>ANY\<close> for the empty list; the site for a list of one site;
  and for a longer list, with tier 0 counted as tier 1 and the sites without a tier left
  out, \<open>v\<close> is \<^verbatim>\<open>Group.\<close> followed by the site without its first token when exactly one
  site has the least tier, and \<^verbatim>\<open>Multiple\<close> when not.
\<close>

theorem C10_site_attribute:
  assumes "distinct siteList"
    and "list_all (\<lambda>s. case getSiteTier e s of Inl msg \<Rightarrow> True | Inr t \<Rightarrow> 0 \<le> t) siteList"
  shows "setJobSite e siteList
           = (setAttribute e ''Site'' (jobSiteName e siteList),
              [SetAttribute ''Site'' (jobSiteName e siteList)])
         \<and> (siteList = [] \<longrightarrow> jobSiteName e siteList = ''ANY'')
         \<and> (\<forall>s. siteList = [s] \<longrightarrow> jobSiteName e siteList = s)
         \<and> (1 < length siteList \<longrightarrow>
              (\<forall>s. set (minTierSites e siteList) = {s}
                     \<longrightarrow> jobSiteName e siteList = ''Group.'' @ dropToken s)
              \<and> ((\<nexists>s. set (minTierSites e siteList) = {s})
                     \<longrightarrow> jobSiteName e siteList = ''Multiple''))"
proof -
  have loop: "tierLoop e siteList (- 1) [] = minTierSites e siteList"
    using tierLoop_minTierSites [OF tiers_not_minus_one [OF assms(2)]] .
  have single: "(set (minTierSites e siteList) = {s}) = (minTierSites e siteList = [s])" for s
    using distinct_singleton_iff [OF distinct_minTierSites [OF assms(1)]] .
  have one: "(length (minTierSites e siteList) = 1) = (\<exists>s. minTierSites e siteList = [s])"
    by (cases "minTierSites e siteList") auto
  have long: "length siteList \<noteq> 0 \<and> length siteList \<noteq> 1" if "1 < length siteList"
    using that by (cases siteList) simp_all
  have group: "jobSiteName e siteList = ''Group.'' @ dropToken s"
    if "1 < length siteList" "minTierSites e siteList = [s]" for s
    using long [OF that(1)] that(2) by (simp add: jobSiteName_def loop join_tl_split_dot)
  have multiple: "jobSiteName e siteList = ''Multiple''"
    if "1 < length siteList" "\<nexists>s. minTierSites e siteList = [s]"
    using long [OF that(1)] that(2) one by (simp add: jobSiteName_def loop)
  show ?thesis
    using group multiple by (auto simp: setJobSite_def jobSiteName_def single)
qed

theorem C10_site_attribute_witness:
  "jobSiteName tiers [''LCG.CERN.ch'', ''LCG.CNAF.it'', ''LCG.Pisa.it'', ''LCG.Lyon.fr'']
     = ''Group.CERN.ch''
   \<and> jobSiteName tiers [''LCG.CNAF.it'', ''LCG.Pisa.it'', ''LCG.Lyon.fr''] = ''Multiple''
   \<and> jobSiteName tiers [] = ''ANY''
   \<and> jobSiteName tiers [''LCG.Lyon.fr''] = ''LCG.Lyon.fr''"
proof -
  let ?four = "[''LCG.CERN.ch'', ''LCG.CNAF.it'', ''LCG.Pisa.it'', ''LCG.Lyon.fr'']"
  let ?three = "[''LCG.CNAF.it'', ''LCG.Pisa.it'', ''LCG.Lyon.fr'']"
  have d4: "distinct ?four" by simp
  have d3: "distinct ?three" by simp
  have t4: "list_all (\<lambda>s. case getSiteTier tiers s of Inl msg \<Rightarrow> True | Inr t \<Rightarrow> 0 \<le> t) ?four"
    by (simp add: tiers_def quiet_def)
  have t3: "list_all (\<lambda>s. case getSiteTier tiers s of Inl msg \<Rightarrow> True | Inr t \<Rightarrow> 0 \<le> t) ?three"
    by (simp add: tiers_def quiet_def)
  have m4: "minTierSites tiers ?four = [''LCG.CERN.ch'']"
    by code_simp
  have m3: "minTierSites tiers ?three = [''LCG.CNAF.it'', ''LCG.Pisa.it'']"
    by code_simp
  have token: "dropToken ''LCG.CERN.ch'' = ''CERN.ch''"
    by (simp add: dropToken_def)
  have four: "jobSiteName tiers ?four = ''Group.CERN.ch''"
    using C10_site_attribute [OF d4 t4] by (simp add: m4 token)
  have three: "jobSiteName tiers ?three = ''Multiple''"
    using C10_site_attribute [OF d3 t3] by (simp add: m3)
  have none: "jobSiteName tiers [] = ''ANY''"
    using C10_site_attribute [of "[]" tiers] by simp
  have lone: "jobSiteName tiers [''LCG.Lyon.fr''] = ''LCG.Lyon.fr''"
    using C10_site_attribute [of "[''LCG.Lyon.fr'']" tiers] by (simp add: tiers_def quiet_def)
  show ?thesis
    using four three none lone by simp
qed

end
